theory Spec2Isabelle
  imports Main "HOL-Library.Sublist"
begin

section \<open>JavaScript values\<close>

text \<open>
  The adapter of \<^verbatim>\<open>src/index.ts\<close> handles untyped JavaScript values (parameter
  sources, rows, driver replies). They are embedded as one datatype. A string is the list
  of its code units (code units below 256); an object is a plain object, given by the list
  of its own properties in insertion order, the first entry of a key being the one that is
  read; an array is dense. A built-in function or object of the engine, which a read of an
  inherited member yields, is a value named by its path (\<^verbatim>\<open>Object.prototype.toString\<close>).
  The members of a built-in itself, and the members that a number, a boolean or a string
  inherits, are not part of the embedding: the code reads them only when a caller passes
  such a value where a mapping or an array is asked for, or the pool replies with one.
\<close>

datatype jsval =
    JUndefined
  | JNull
  | JBool bool
  | JNum int
  | JStr string
  | JArr "jsval list"
  | JObj "(string \<times> jsval) list"
  | JBuiltin string

datatype error = Error string | TypeError

text \<open>Truthiness (\<^verbatim>\<open>if (x)\<close>, \<^verbatim>\<open>!x\<close>, \<^verbatim>\<open>x || y\<close>, \<^verbatim>\<open>x && y\<close>).\<close>

fun truthy :: "jsval \<Rightarrow> bool" where
  "truthy JUndefined = False"
| "truthy JNull = False"
| "truthy (JBool b) = b"
| "truthy (JNum n) = (n \<noteq> 0)"
| "truthy (JStr s) = (s \<noteq> [])"
| "truthy (JArr xs) = True"
| "truthy (JObj kvs) = True"
| "truthy (JBuiltin n) = True"

text \<open>\<^verbatim>\<open>x == null\<close>: true of \<^verbatim>\<open>null\<close> and \<^verbatim>\<open>undefined\<close> only.\<close>

fun nullish :: "jsval \<Rightarrow> bool" where
  "nullish JUndefined = True"
| "nullish JNull = True"
| "nullish v = False"

text \<open>\<^verbatim>\<open>x ?? y\<close> and \<^verbatim>\<open>x || y\<close>.\<close>

definition js_coalesce :: "jsval \<Rightarrow> jsval \<Rightarrow> jsval" where
  "js_coalesce x y = (if nullish x then y else x)"

definition js_or :: "jsval \<Rightarrow> jsval \<Rightarrow> jsval" where
  "js_or x y = (if truthy x then x else y)"

fun js_typeof :: "jsval \<Rightarrow> string" where
  "js_typeof JUndefined = ''undefined''"
| "js_typeof JNull = ''object''"
| "js_typeof (JBool b) = ''boolean''"
| "js_typeof (JNum n) = ''number''"
| "js_typeof (JStr s) = ''string''"
| "js_typeof (JArr xs) = ''object''"
| "js_typeof (JObj kvs) = ''object''"
| "js_typeof (JBuiltin n) =
     (if n = ''Object.prototype'' \<or> n = ''Array.prototype'' then ''object'' else ''function'')"

text \<open>A value that is an object in the sense of the language (not a primitive value).\<close>

fun is_object :: "jsval \<Rightarrow> bool" where
  "is_object (JArr xs) = True"
| "is_object (JObj kvs) = True"
| "is_object (JBuiltin n) = True"
| "is_object v = False"

text \<open>
  Array indices as property keys: a key names an element when it is the canonical decimal
  numeral of the index (\<^verbatim>\<open>"0"\<close>, \<^verbatim>\<open>"17"\<close>, but not \<^verbatim>\<open>"017"\<close>).
\<close>

definition is_digit :: "char \<Rightarrow> bool" where
  "is_digit c = (let n = (of_char c :: nat) in 48 \<le> n \<and> n \<le> 57)"

definition digits_value :: "string \<Rightarrow> nat" where
  "digits_value s = foldl (\<lambda>acc c. 10 * acc + (of_char c - 48)) 0 s"

definition array_index :: "string \<Rightarrow> nat option" where
  "array_index k =
     (if k \<noteq> [] \<and> list_all is_digit k \<and> (k = ''0'' \<or> hd k \<noteq> CHR ''0'')
      then Some (digits_value k) else None)"

text \<open>
  The members that a plain object inherits from \<^verbatim>\<open>Object.prototype\<close> and an array
  from \<^verbatim>\<open>Array.prototype\<close> (ECMAScript 2023, with its annex B), by their string keys.
\<close>

definition object_prototype_functions :: "string list" where
  "object_prototype_functions =
     [''__defineGetter__'', ''__defineSetter__'', ''__lookupGetter__'', ''__lookupSetter__'',
      ''hasOwnProperty'', ''isPrototypeOf'', ''propertyIsEnumerable'', ''toLocaleString'',
      ''toString'', ''valueOf'']"

definition inherited_object :: "string \<Rightarrow> jsval option" where
  "inherited_object k =
     (if k = ''constructor'' then Some (JBuiltin ''Object'')
      else if k = ''__proto__'' then Some (JBuiltin ''Object.prototype'')
      else if k \<in> set object_prototype_functions
      then Some (JBuiltin (''Object.prototype.'' @ k))
      else None)"

definition array_prototype_functions :: "string list" where
  "array_prototype_functions =
     [''at'', ''concat'', ''copyWithin'', ''entries'', ''every'', ''fill'', ''filter'',
      ''find'', ''findIndex'', ''findLast'', ''findLastIndex'', ''flat'', ''flatMap'',
      ''forEach'', ''includes'', ''indexOf'', ''join'', ''keys'', ''lastIndexOf'', ''map'',
      ''pop'', ''push'', ''reduce'', ''reduceRight'', ''reverse'', ''shift'', ''slice'',
      ''some'', ''sort'', ''splice'', ''toLocaleString'', ''toReversed'', ''toSorted'',
      ''toSpliced'', ''toString'', ''unshift'', ''values'', ''with'']"

definition inherited_array :: "string \<Rightarrow> jsval option" where
  "inherited_array k =
     (if k = ''constructor'' then Some (JBuiltin ''Array'')
      else if k = ''__proto__'' then Some (JBuiltin ''Array.prototype'')
      else if k \<in> set array_prototype_functions
      then Some (JBuiltin (''Array.prototype.'' @ k))
      else inherited_object k)"

text \<open>
  Property read \<^verbatim>\<open>o[k]\<close>: the own property, else the inherited member, else
  \<^verbatim>\<open>undefined\<close>. A string has its length and its characters.
\<close>

fun js_get :: "jsval \<Rightarrow> string \<Rightarrow> jsval" where
  "js_get (JObj kvs) k =
     (case map_of kvs k of
        Some v \<Rightarrow> v
      | None \<Rightarrow> (case inherited_object k of Some v \<Rightarrow> v | None \<Rightarrow> JUndefined))"
| "js_get (JArr xs) k =
     (if k = ''length'' then JNum (int (length xs))
      else case array_index k of
             Some i \<Rightarrow> if i < length xs then xs ! i else JUndefined
           | None \<Rightarrow> (case inherited_array k of Some v \<Rightarrow> v | None \<Rightarrow> JUndefined))"
| "js_get (JStr s) k =
     (if k = ''length'' then JNum (int (length s))
      else case array_index k of
             Some i \<Rightarrow> if i < length s then JStr [s ! i] else JUndefined
           | None \<Rightarrow> JUndefined)"
| "js_get v k = JUndefined"

text \<open>
  \<^verbatim>\<open>k in o\<close> for an object \<open>o\<close>: own or inherited. On a primitive value the
  operator throws; the caller checks \<open>is_object\<close> first.
\<close>

fun js_in :: "string \<Rightarrow> jsval \<Rightarrow> bool" where
  "js_in k (JObj kvs) =
     (k \<in> set (map fst kvs) \<or> (case inherited_object k of Some v \<Rightarrow> True | None \<Rightarrow> False))"
| "js_in k (JArr xs) =
     (k = ''length''
      \<or> (case array_index k of
            Some i \<Rightarrow> i < length xs
          | None \<Rightarrow> (case inherited_array k of Some v \<Rightarrow> True | None \<Rightarrow> False)))"
| "js_in k v = False"

section \<open>convertNamedParams\<close>

text \<open>The class \<^verbatim>\<open>\w\<close> of a JavaScript regular expression: ASCII letters, digits, underscore.\<close>

definition is_word_char :: "char \<Rightarrow> bool" where
  "is_word_char c =
     (let n = (of_char c :: nat)
      in (48 \<le> n \<and> n \<le> 57) \<or> (65 \<le> n \<and> n \<le> 90) \<or> n = 95 \<or> (97 \<le> n \<and> n \<le> 122))"

text \<open>
  \<^verbatim>\<open>sql.replace(/\$(\w+)/g, (_, name) => { paramNames.push(name); return '?' })\<close>:
  one pass from the left; at a dollar sign followed by at least one word character the
  longest run of word characters is the name, the whole token becomes \<^verbatim>\<open>?\<close>, and
  the scan resumes behind the token. The result is the new text and the recorded names.
\<close>

function replaceNamed :: "string \<Rightarrow> string \<times> string list" where
  "replaceNamed [] = ([], [])"
| "replaceNamed (c # cs) =
     (if c = CHR ''$'' \<and> takeWhile is_word_char cs \<noteq> []
      then (case replaceNamed (dropWhile is_word_char cs) of
              (out, names) \<Rightarrow> (CHR ''?'' # out, takeWhile is_word_char cs # names))
      else (case replaceNamed cs of (out, names) \<Rightarrow> (c # out, names)))"
  by pat_completeness auto
termination
  by (relation "measure length") (auto simp: length_dropWhile_le less_Suc_eq_le)

record query =
  orig :: "(string \<times> jsval) option"
  sql :: string
  qvalues :: "jsval list"
  paramNames :: "string list option"

text \<open>
  The \<^verbatim>\<open>paramNames.map(name => ...)\<close> of convertNamedParams: the callback throws at
  the first name, in order, for which \<^verbatim>\<open>params.length && !(name in params)\<close> holds.
  Reading \<^verbatim>\<open>params.length\<close> is a TypeError when \<^verbatim>\<open>params\<close> is \<^verbatim>\<open>null\<close> or
  \<^verbatim>\<open>undefined\<close>, and so is \<^verbatim>\<open>name in params\<close> when \<^verbatim>\<open>params\<close> is a primitive
  value.
\<close>

fun namedValues :: "jsval \<Rightarrow> string list \<Rightarrow> error + jsval list" where
  "namedValues params [] = Inr []"
| "namedValues params (name # names) =
     (if nullish params then Inl TypeError
      else if truthy (js_get params ''length'') \<and> \<not> is_object params then Inl TypeError
      else if truthy (js_get params ''length'') \<and> \<not> js_in name params
      then Inl (Error (''Missing parameter: '' @ name))
      else (case namedValues params names of
              Inl e \<Rightarrow> Inl e
            | Inr vs \<Rightarrow> Inr (js_get params name # vs)))"

definition convertNamedParams :: "string \<Rightarrow> jsval \<Rightarrow> error + query" where
  "convertNamedParams s params =
     (case replaceNamed s of
        (toSql, names) \<Rightarrow>
          (case namedValues params names of
             Inl e \<Rightarrow> Inl e
           | Inr vs \<Rightarrow>
               Inr \<lparr> orig = Some (s, params), sql = toSql, qvalues = vs,
                     paramNames = Some names \<rparr>))"

section \<open>Helpers of the litdb package\<close>

text \<open>
  \<^verbatim>\<open>IS\<close> is imported from the litdb package, which is not part of this repository.
  Its three predicates used here: \<^verbatim>\<open>IS.arr\<close> is \<^verbatim>\<open>Array.isArray\<close>;
  \<^verbatim>\<open>IS.rec\<close> is \<^verbatim>\<open>typeof o == 'object'\<close>, which arrays and \<^verbatim>\<open>null\<close> pass
  (\<^verbatim>\<open>prepare\<close> hands the rest array of its bindings to \<^verbatim>\<open>forNamedParams\<close>, which
  rejects whatever \<^verbatim>\<open>IS.rec\<close> rejects); \<^verbatim>\<open>IS.obj\<close> accepts objects and arrays, and
  the code applies it to values other than \<^verbatim>\<open>null\<close> and \<^verbatim>\<open>undefined\<close> only.
\<close>

fun IS_arr :: "jsval \<Rightarrow> bool" where
  "IS_arr (JArr xs) = True"
| "IS_arr v = False"

definition IS_rec :: "jsval \<Rightarrow> bool" where
  "IS_rec v = (js_typeof v = ''object'')"

fun IS_obj :: "jsval \<Rightarrow> bool" where
  "IS_obj (JObj kvs) = True"
| "IS_obj (JArr xs) = True"
| "IS_obj v = False"

section \<open>The native pool\<close>

text \<open>
  The pool of mysql2 is the only effect of the adapter. A call is recorded in one of the
  three shapes the code uses: \<^verbatim>\<open>query(sql)\<close>, \<^verbatim>\<open>query(sql, values)\<close> and
  \<^verbatim>\<open>query({sql, rowsAsArray, values})\<close>. The pool itself is a parameter: a function
  from the calls made so far and the present call to a failure or to the first component
  of the reply \<^verbatim>\<open>[rows, fields]\<close>. Every asynchronous operation takes the log of calls
  and returns its outcome with the extended log.
\<close>

datatype native_call =
    QuerySql string
  | QueryValues string jsval
  | QueryOptions string bool jsval

type_synonym driver = "native_call list \<Rightarrow> native_call \<Rightarrow> error + jsval"

type_synonym 'a async = "(error + 'a) \<times> native_call list"

definition native_query :: "driver \<Rightarrow> native_call \<Rightarrow> native_call list \<Rightarrow> jsval async" where
  "native_query drv c log = (drv log c, log @ [c])"

text \<open>
  A member read \<^verbatim>\<open>x[k]\<close> or \<^verbatim>\<open>x.k\<close> whose base may be \<^verbatim>\<open>null\<close> or
  \<^verbatim>\<open>undefined\<close> throws a TypeError there.
\<close>

definition js_member :: "jsval \<Rightarrow> string \<Rightarrow> error + jsval" where
  "js_member x k = (if nullish x then Inl TypeError else Inr (js_get x k))"

text \<open>\<^verbatim>\<open>x?.[k]\<close> and \<^verbatim>\<open>x?.length\<close>\<close>

definition opt_get :: "jsval \<Rightarrow> string \<Rightarrow> jsval" where
  "opt_get x k = (if nullish x then JUndefined else js_get x k)"

definition opt_length :: "jsval \<Rightarrow> jsval" where
  "opt_length x = opt_get x ''length''"

section \<open>splitSqlStatements\<close>

text \<open>
  \<^verbatim>\<open>sql.split(/;(?:\r\n|\n)/)\<close>: the pieces between the matches of the separator, found
  from the left; the separator never matches the empty string, so the empty text gives one
  empty piece.
\<close>

fun js_split :: "string \<Rightarrow> string list" where
  "js_split [] = [[]]"
| "js_split (c # cs) =
     (if c = CHR '';'' \<and> take 2 cs = [CHR 0x0D, CHR 0x0A] then [] # js_split (drop 2 cs)
      else if c = CHR '';'' \<and> take 1 cs = [CHR 0x0A] then [] # js_split (drop 1 cs)
      else (case js_split cs of
              [] \<Rightarrow> [[c]]
            | p # ps \<Rightarrow> (c # p) # ps))"

text \<open>
  \<^verbatim>\<open>String.prototype.trim\<close> removes white space and line terminators at both ends;
  among the code units below 256 these are tab, line feed, vertical tab, form feed,
  carriage return, space and the no-break space.
\<close>

definition is_space :: "char \<Rightarrow> bool" where
  "is_space c = ((of_char c :: nat) \<in> {9, 10, 11, 12, 13, 32, 160})"

definition trim :: "string \<Rightarrow> string" where
  "trim s = rev (dropWhile is_space (rev (dropWhile is_space s)))"

definition splitSqlStatements :: "string \<Rightarrow> string list" where
  "splitSqlStatements s = filter (\<lambda>stmt. stmt \<noteq> []) (map trim (js_split s))"

section \<open>DriverStatement\<close>

text \<open>
  A DriverStatement is its query; the connection it holds is the pool parameter
  \<open>drv\<close> of the operations.
\<close>

definition forPositionalParams :: "string \<Rightarrow> jsval \<Rightarrow> error + query" where
  "forPositionalParams s ps =
     (case ps of
        JArr xs \<Rightarrow> Inr \<lparr> orig = None, sql = s, qvalues = xs, paramNames = None \<rparr>
      | _ \<Rightarrow> Inl (Error (''Expected array, but was: '' @ js_typeof ps)))"

definition forNamedParams :: "string \<Rightarrow> jsval \<Rightarrow> error + query" where
  "forNamedParams s ps =
     (if \<not> IS_rec ps then Inl (Error (''Expected Record<string,any>, but was: '' @ js_typeof ps))
      else convertNamedParams s ps)"

text \<open>\<^verbatim>\<open>this.query.paramNames?.length\<close> as a condition.\<close>

definition hasParamNames :: "query \<Rightarrow> bool" where
  "hasParamNames q = (case paramNames q of None \<Rightarrow> False | Some names \<Rightarrow> names \<noteq> [])"

definition namesOf :: "query \<Rightarrow> string list" where
  "namesOf q = (case paramNames q of None \<Rightarrow> [] | Some names \<Rightarrow> names)"

text \<open>
  \<^verbatim>\<open>DriverStatement.params\<close>: the value list handed to the pool, or \<^verbatim>\<open>undefined\<close>.
  In the first branch the list of names is not empty, so the read \<^verbatim>\<open>params[key]\<close>
  is made, and it is a TypeError on \<^verbatim>\<open>null\<close>, which \<^verbatim>\<open>IS.rec\<close> lets pass.
\<close>

definition DriverStatement_params :: "query \<Rightarrow> jsval \<Rightarrow> error + jsval" where
  "DriverStatement_params q p =
     (if hasParamNames q \<and> IS_rec p
      then (if nullish p then Inl TypeError
            else Inr (JArr (map (\<lambda>key. js_coalesce (js_get p key) JNull) (namesOf q))))
      else if IS_arr p then Inr p
      else if qvalues q = [] then Inr JUndefined
      else if length (qvalues q) = 1
      then Inr (if truthy p then (if IS_arr p then p else JArr [p]) else JUndefined)
      else Inl (Error (''Invalid params ('' @ js_typeof p @ '') for query: '' @ sql q)))"

definition unwrapQuery :: "driver \<Rightarrow> string \<Rightarrow> jsval \<Rightarrow> native_call list \<Rightarrow> jsval async" where
  "unwrapQuery drv s paramValues log = native_query drv (QueryValues s paramValues) log"

definition DriverStatement_all ::
  "driver \<Rightarrow> query \<Rightarrow> jsval \<Rightarrow> native_call list \<Rightarrow> jsval async" where
  "DriverStatement_all drv q p log =
     (case DriverStatement_params q p of
        Inl e \<Rightarrow> (Inl e, log)
      | Inr pv \<Rightarrow> unwrapQuery drv (sql q) pv log)"

definition DriverStatement_get ::
  "driver \<Rightarrow> query \<Rightarrow> jsval \<Rightarrow> native_call list \<Rightarrow> jsval async" where
  "DriverStatement_get drv q p log =
     (case DriverStatement_params q p of
        Inl e \<Rightarrow> (Inl e, log)
      | Inr pv \<Rightarrow>
          (case unwrapQuery drv (sql q) pv log of
             (Inl e, log') \<Rightarrow> (Inl e, log')
           | (Inr ret, log') \<Rightarrow>
               (case js_member ret ''0'' of
                  Inl e \<Rightarrow> (Inl e, log')
                | Inr r0 \<Rightarrow> (Inr (js_or r0 JNull), log'))))"

definition DriverStatement_arrays ::
  "driver \<Rightarrow> query \<Rightarrow> jsval \<Rightarrow> native_call list \<Rightarrow> jsval async" where
  "DriverStatement_arrays drv q p log =
     (case DriverStatement_params q p of
        Inl e \<Rightarrow> (Inl e, log)
      | Inr positionalParams \<Rightarrow>
          native_query drv (QueryOptions (sql q) True positionalParams) log)"

definition DriverStatement_array ::
  "driver \<Rightarrow> query \<Rightarrow> jsval \<Rightarrow> native_call list \<Rightarrow> jsval async" where
  "DriverStatement_array drv q p log =
     (case DriverStatement_arrays drv q p log of
        (Inl e, log') \<Rightarrow> (Inl e, log')
      | (Inr x, log') \<Rightarrow> (js_member x ''0'', log'))"

text \<open>
  The change result. mysql2 declares \<^verbatim>\<open>affectedRows\<close> and \<^verbatim>\<open>insertId\<close> as
  numbers, and the embedding keeps the two fields as integers: \<open>or_zero\<close> is
  \<^verbatim>\<open>x || 0\<close> for a number or a missing property. A reply whose field holds another
  truthy value, which the code would pass on as it is and add up in \<^verbatim>\<open>insertAll\<close>,
  is outside the embedding and is read as 0.
\<close>

record Changes =
  changes :: int
  lastInsertRowid :: int

fun or_zero :: "jsval \<Rightarrow> int" where
  "or_zero (JNum n) = n"
| "or_zero v = 0"

definition DriverStatement_exec ::
  "driver \<Rightarrow> query \<Rightarrow> jsval \<Rightarrow> native_call list \<Rightarrow> Changes async" where
  "DriverStatement_exec drv q p log =
     (case DriverStatement_arrays drv q p log of
        (Inl e, log') \<Rightarrow> (Inl e, log')
      | (Inr ret, log') \<Rightarrow>
          (if nullish ret then (Inl TypeError, log')
           else (Inr \<lparr> changes = or_zero (js_get ret ''affectedRows''),
                       lastInsertRowid = or_zero (js_get ret ''insertId'') \<rparr>, log')))"

text \<open>The loop of \<^verbatim>\<open>run\<close> over the split statements: an awaited failure ends it.\<close>

fun run_each :: "driver \<Rightarrow> string list \<Rightarrow> native_call list \<Rightarrow> unit async" where
  "run_each drv [] log = (Inr (), log)"
| "run_each drv (s # stmts) log =
     (case native_query drv (QuerySql s) log of
        (Inl e, log') \<Rightarrow> (Inl e, log')
      | (Inr r, log') \<Rightarrow> run_each drv stmts log')"

definition DriverStatement_run ::
  "driver \<Rightarrow> query \<Rightarrow> jsval \<Rightarrow> native_call list \<Rightarrow> unit async" where
  "DriverStatement_run drv q p log =
     (case DriverStatement_params q p of
        Inl e \<Rightarrow> (Inl e, log)
      | Inr positionalParams \<Rightarrow>
          (if \<not> truthy (opt_length positionalParams)
           then run_each drv (splitSqlStatements (sql q)) log
           else (case native_query drv (QueryValues (sql q) positionalParams) log of
                   (Inl e, log') \<Rightarrow> (Inl e, log')
                 | (Inr r, log') \<Rightarrow> (Inr (), log'))))"

section \<open>MySqlStatement\<close>

text \<open>
  A MySqlStatement wraps a DriverStatement and the optional target constructor
  \<^verbatim>\<open>_as\<close>; the constructor is the function that \<^verbatim>\<open>new (this._as)(o)\<close> computes.
\<close>

record MySqlStatement =
  native :: query
  as_ctor :: "(jsval \<Rightarrow> jsval) option"

definition result :: "MySqlStatement \<Rightarrow> jsval \<Rightarrow> jsval" where
  "result st o' =
     (if nullish o' then JNull
      else (case as_ctor st of
              Some ctor \<Rightarrow> if IS_obj o' then ctor o' else o'
            | None \<Rightarrow> o'))"

definition MySqlStatement_as :: "MySqlStatement \<Rightarrow> (jsval \<Rightarrow> jsval) \<Rightarrow> MySqlStatement" where
  "MySqlStatement_as st t = \<lparr> native = native st, as_ctor = Some t \<rparr>"

text \<open>
  \<^verbatim>\<open>xs.map(f)\<close> where \<open>f\<close> may throw: the first failure, in order, is the
  outcome. On a value that is not an array the call itself is a TypeError.
\<close>

fun map_throw :: "('a \<Rightarrow> error + 'b) \<Rightarrow> 'a list \<Rightarrow> error + 'b list" where
  "map_throw f [] = Inr []"
| "map_throw f (x # xs) =
     (case f x of
        Inl e \<Rightarrow> Inl e
      | Inr y \<Rightarrow> (case map_throw f xs of Inl e \<Rightarrow> Inl e | Inr ys \<Rightarrow> Inr (y # ys)))"

definition js_map :: "(jsval \<Rightarrow> error + jsval) \<Rightarrow> jsval \<Rightarrow> error + jsval" where
  "js_map f v =
     (case v of
        JArr xs \<Rightarrow> (case map_throw f xs of Inl e \<Rightarrow> Inl e | Inr ys \<Rightarrow> Inr (JArr ys))
      | _ \<Rightarrow> Inl TypeError)"

definition MySqlStatement_all ::
  "driver \<Rightarrow> MySqlStatement \<Rightarrow> jsval \<Rightarrow> native_call list \<Rightarrow> jsval async" where
  "MySqlStatement_all drv st p log =
     (case DriverStatement_all drv (native st) p log of
        (Inl e, log') \<Rightarrow> (Inl e, log')
      | (Inr ret, log') \<Rightarrow> (js_map (\<lambda>x. Inr (result st x)) ret, log'))"

definition MySqlStatement_one ::
  "driver \<Rightarrow> MySqlStatement \<Rightarrow> jsval \<Rightarrow> native_call list \<Rightarrow> jsval async" where
  "MySqlStatement_one drv st p log =
     (case DriverStatement_get drv (native st) p log of
        (Inl e, log') \<Rightarrow> (Inl e, log')
      | (Inr r, log') \<Rightarrow> (Inr (result st r), log'))"

definition MySqlStatement_column ::
  "driver \<Rightarrow> MySqlStatement \<Rightarrow> jsval \<Rightarrow> native_call list \<Rightarrow> jsval async" where
  "MySqlStatement_column drv st p log =
     (case DriverStatement_arrays drv (native st) p log of
        (Inl e, log') \<Rightarrow> (Inl e, log')
      | (Inr ret, log') \<Rightarrow> (js_map (\<lambda>row. js_member row ''0'') ret, log'))"

definition MySqlStatement_value ::
  "driver \<Rightarrow> MySqlStatement \<Rightarrow> jsval \<Rightarrow> native_call list \<Rightarrow> jsval async" where
  "MySqlStatement_value drv st p log =
     (case DriverStatement_arrays drv (native st) p log of
        (Inl e, log') \<Rightarrow> (Inl e, log')
      | (Inr ret, log') \<Rightarrow>
          (case js_map (\<lambda>row. js_member row ''0'') ret of
             Inl e \<Rightarrow> (Inl e, log')
           | Inr col \<Rightarrow> (Inr (js_coalesce (opt_get col ''0'') JNull), log')))"

definition MySqlStatement_arrays ::
  "driver \<Rightarrow> MySqlStatement \<Rightarrow> jsval \<Rightarrow> native_call list \<Rightarrow> jsval async" where
  "MySqlStatement_arrays drv st p log = DriverStatement_arrays drv (native st) p log"

definition MySqlStatement_array ::
  "driver \<Rightarrow> MySqlStatement \<Rightarrow> jsval \<Rightarrow> native_call list \<Rightarrow> jsval async" where
  "MySqlStatement_array drv st p log = DriverStatement_array drv (native st) p log"

definition MySqlStatement_exec ::
  "driver \<Rightarrow> MySqlStatement \<Rightarrow> jsval \<Rightarrow> native_call list \<Rightarrow> Changes async" where
  "MySqlStatement_exec drv st p log = DriverStatement_exec drv (native st) p log"

definition MySqlStatement_run ::
  "driver \<Rightarrow> MySqlStatement \<Rightarrow> jsval \<Rightarrow> native_call list \<Rightarrow> unit async" where
  "MySqlStatement_run drv st p log = DriverStatement_run drv (native st) p log"

section \<open>MySqlConnection.prepare\<close>

text \<open>
  The first argument of \<^verbatim>\<open>prepare\<close> is a template (its string parts) or a string;
  \<open>ps\<close> is the rest array of bindings.
\<close>

datatype sql_arg = Tpl "string list" | Str string

definition tpl_sql :: "string list \<Rightarrow> nat \<Rightarrow> string" where
  "tpl_sql parts n =
     concat (map (\<lambda>i. parts ! i @ (if i < n then ''?'' else [])) [0..<length parts])"

definition prepare :: "sql_arg \<Rightarrow> jsval list \<Rightarrow> error + MySqlStatement" where
  "prepare s ps =
     (case (case s of
              Tpl parts \<Rightarrow> forPositionalParams (tpl_sql parts (length ps)) (JArr ps)
            | Str text \<Rightarrow> forNamedParams text (JArr ps)) of
        Inl e \<Rightarrow> Inl e
      | Inr q \<Rightarrow> Inr \<lparr> native = q, as_ctor = None \<rparr>)"

section \<open>Row-mutation helpers of MySqlDbConnection\<close>

text \<open>
  The reflection data of a row type (\<^verbatim>\<open>ReflectMeta\<close>: \<^verbatim>\<open>$props\<close>, each with its
  \<^verbatim>\<open>name\<close> and optional \<^verbatim>\<open>column\<close> definition) and a class instance (its
  \<^verbatim>\<open>constructor\<close> and own properties). An absent row is \<open>None\<close>.
\<close>

record ColumnDefinition =
  column_name :: string
  primaryKey :: bool

record Prop =
  prop_name :: string
  column :: "ColumnDefinition option"

record ReflectMeta =
  props :: "Prop list"

record ClassInstance =
  constructor :: ReflectMeta
  own :: "(string \<times> jsval) list"

text \<open>
  \<^verbatim>\<open>InsertOptions\<close> and \<^verbatim>\<open>UpdateOptions\<close>, as far as the helpers read them.
  \<open>wantsOnly\<close> is the condition \<^verbatim>\<open>options?.onlyProps || options?.onlyWithValues\<close>
  (an array is truthy, also when empty).
\<close>

record Options =
  onlyProps :: "string list option"
  onlyWithValues :: bool

definition wantsOnly :: "Options option \<Rightarrow> bool" where
  "wantsOnly options =
     (case options of None \<Rightarrow> False | Some opts \<Rightarrow> onlyProps opts \<noteq> None \<or> onlyWithValues opts)"

text \<open>
  The schema of the litdb package is a parameter: the SQL text it generates for a row type
  (with or without \<^verbatim>\<open>{ onlyProps }\<close>) and its serializer \<^verbatim>\<open>toDbObject\<close>.
\<close>

record Schema =
  schema_insert :: "ReflectMeta \<Rightarrow> string list option \<Rightarrow> string"
  schema_update :: "ReflectMeta \<Rightarrow> string list option \<Rightarrow> string"
  toDbObject :: "ClassInstance \<Rightarrow> string list option \<Rightarrow> jsval"

text \<open>
  \<^verbatim>\<open>Array.from(new Set(xs))\<close>: the elements in the order of their first occurrence.
  \<^verbatim>\<open>Object.keys\<close> lists the own keys in the same way.
\<close>

definition set_from :: "'a list \<Rightarrow> 'a list" where
  "set_from xs = foldl (\<lambda>acc x. if x \<in> set acc then acc else acc @ [x]) [] xs"

definition object_keys :: "(string \<times> jsval) list \<Rightarrow> string list" where
  "object_keys kvs = set_from (map fst kvs)"

definition propsWithValues :: "(string \<times> jsval) list \<Rightarrow> string list" where
  "propsWithValues obj = filter (\<lambda>k. \<not> nullish (js_get (JObj obj) k)) (object_keys obj)"

text \<open>\<^verbatim>\<open>options?.onlyProps ?? propsWithValues(row)\<close>\<close>

definition requestedProps :: "ClassInstance \<Rightarrow> Options option \<Rightarrow> string list" where
  "requestedProps r options =
     (case Option.bind options onlyProps of
        Some ps \<Rightarrow> ps
      | None \<Rightarrow> propsWithValues (own r))"

definition zero_changes :: Changes where
  "zero_changes = \<lparr> changes = 0, lastInsertRowid = 0 \<rparr>"

definition insert_row ::
  "driver \<Rightarrow> Schema \<Rightarrow> ClassInstance option \<Rightarrow> Options option \<Rightarrow> native_call list
     \<Rightarrow> Changes async" where
  "insert_row drv schema row options log =
     (case row of
        None \<Rightarrow> (Inr zero_changes, log)
      | Some r \<Rightarrow>
          (let cls = constructor r in
           if wantsOnly options
           then (let only = requestedProps r options
                 in (case prepare (Str (schema_insert schema cls (Some only))) [] of
                       Inl e \<Rightarrow> (Inl e, log)
                     | Inr stmt \<Rightarrow>
                         MySqlStatement_exec drv stmt (toDbObject schema r (Some only)) log))
           else (case prepare (Str (schema_insert schema cls None)) [] of
                   Inl e \<Rightarrow> (Inl e, log)
                 | Inr stmt \<Rightarrow> MySqlStatement_exec drv stmt (toDbObject schema r None) log)))"

text \<open>The two loops of \<^verbatim>\<open>insertAll\<close>, with the accumulated change result.\<close>

fun insertAll_each ::
  "driver \<Rightarrow> Schema \<Rightarrow> Options option \<Rightarrow> ClassInstance list \<Rightarrow> Changes \<Rightarrow> native_call list
     \<Rightarrow> Changes async" where
  "insertAll_each drv schema options [] ret log = (Inr ret, log)"
| "insertAll_each drv schema options (row # rows) ret log =
     (case insert_row drv schema (Some row) options log of
        (Inl e, log') \<Rightarrow> (Inl e, log')
      | (Inr last1, log') \<Rightarrow>
          insertAll_each drv schema options rows
            \<lparr> changes = changes ret + changes last1, lastInsertRowid = lastInsertRowid last1 \<rparr>
            log')"

fun insertAll_stmt ::
  "driver \<Rightarrow> Schema \<Rightarrow> MySqlStatement \<Rightarrow> ClassInstance list \<Rightarrow> Changes \<Rightarrow> native_call list
     \<Rightarrow> Changes async" where
  "insertAll_stmt drv schema stmt [] ret log = (Inr ret, log)"
| "insertAll_stmt drv schema stmt (row # rows) ret log =
     (case MySqlStatement_exec drv stmt (toDbObject schema row None) log of
        (Inl e, log') \<Rightarrow> (Inl e, log')
      | (Inr last1, log') \<Rightarrow>
          insertAll_stmt drv schema stmt rows
            \<lparr> changes = changes ret + changes last1, lastInsertRowid = lastInsertRowid last1 \<rparr>
            log')"

definition insertAll ::
  "driver \<Rightarrow> Schema \<Rightarrow> ClassInstance list \<Rightarrow> Options option \<Rightarrow> native_call list
     \<Rightarrow> Changes async" where
  "insertAll drv schema rows options log =
     (case rows of
        [] \<Rightarrow> (Inr zero_changes, log)
      | row0 # rest \<Rightarrow>
          (let cls = constructor row0 in
           if wantsOnly options
           then insertAll_each drv schema options rows zero_changes log
           else (case prepare (Str (schema_insert schema cls None)) [] of
                   Inl e \<Rightarrow> (Inl e, log)
                 | Inr stmt \<Rightarrow> insertAll_stmt drv schema stmt rows zero_changes log)))"

text \<open>
  \<^verbatim>\<open>update\<close>. \<open>pkNames\<close> and \<open>update_onlyProps\<close> are the two constants of the same
  names in its first branch; the list goes, as \<^verbatim>\<open>{ onlyProps }\<close>, to the SQL generator
  and to the serializer.
\<close>

definition is_pk :: "Prop \<Rightarrow> bool" where
  "is_pk x = (case column x of None \<Rightarrow> False | Some c \<Rightarrow> primaryKey c)"

definition pkNames :: "ReflectMeta \<Rightarrow> string list" where
  "pkNames cls =
     concat (map (\<lambda>x. case column x of None \<Rightarrow> [] | Some c \<Rightarrow> [column_name c])
                 (filter is_pk (props cls)))"

definition update_onlyProps :: "ClassInstance \<Rightarrow> Options option \<Rightarrow> string list" where
  "update_onlyProps r options =
     set_from (requestedProps r options @ pkNames (constructor r))"

definition update_row ::
  "driver \<Rightarrow> Schema \<Rightarrow> ClassInstance option \<Rightarrow> Options option \<Rightarrow> native_call list
     \<Rightarrow> Changes async" where
  "update_row drv schema row options log =
     (case row of
        None \<Rightarrow> (Inr zero_changes, log)
      | Some r \<Rightarrow>
          (let cls = constructor r in
           if wantsOnly options
           then (let only = update_onlyProps r options
                 in (case prepare (Str (schema_update schema cls (Some only))) [] of
                       Inl e \<Rightarrow> (Inl e, log)
                     | Inr stmt \<Rightarrow>
                         MySqlStatement_exec drv stmt (toDbObject schema r (Some only)) log))
           else (case prepare (Str (schema_update schema cls None)) [] of
                   Inl e \<Rightarrow> (Inl e, log)
                 | Inr stmt \<Rightarrow> MySqlStatement_exec drv stmt (toDbObject schema r None) log)))"

section \<open>Notions used to state the properties\<close>

subsection \<open>Named tokens\<close>

text \<open>
  The named tokens of a text, counted without the scan: a token starts at every dollar sign
  that is followed by a word character. \<open>recordedNames\<close> and \<open>toSql\<close> are the two
  results of the scan; \<open>text_pieces\<close> is the text between the tokens, and \<open>weave\<close>
  puts pieces and tokens (or placeholders) back together, alternating.
\<close>

fun count_tokens :: "string \<Rightarrow> nat" where
  "count_tokens [] = 0"
| "count_tokens (c # cs) =
     (if c = CHR ''$'' \<and> cs \<noteq> [] \<and> is_word_char (hd cs) then 1 else 0) + count_tokens cs"

function text_pieces :: "string \<Rightarrow> string list" where
  "text_pieces [] = [[]]"
| "text_pieces (c # cs) =
     (if c = CHR ''$'' \<and> takeWhile is_word_char cs \<noteq> []
      then [] # text_pieces (dropWhile is_word_char cs)
      else (case text_pieces cs of [] \<Rightarrow> [[c]] | p # ps \<Rightarrow> (c # p) # ps))"
  by pat_completeness auto
termination
  by (relation "measure length") (auto simp: length_dropWhile_le less_Suc_eq_le)

fun weave :: "'a list list \<Rightarrow> 'a list list \<Rightarrow> 'a list" where
  "weave (p # ps) (t # ts) = p @ t @ weave ps ts"
| "weave (p # ps) [] = p @ concat ps"
| "weave [] ts = concat ts"

definition recordedNames :: "string \<Rightarrow> string list" where
  "recordedNames s = snd (replaceNamed s)"

definition toSql :: "string \<Rightarrow> string" where
  "toSql s = fst (replaceNamed s)"

subsection \<open>Bound values and primary keys\<close>

text \<open>
  What a named slot is bound to when the source is a mapping: the value of the mapping's
  entry for the name, \<^verbatim>\<open>null\<close> when that value is \<^verbatim>\<open>null\<close> or \<^verbatim>\<open>undefined\<close>;
  without an entry, the member of that name that the mapping inherits from
  \<^verbatim>\<open>Object.prototype\<close>, and \<^verbatim>\<open>null\<close> when there is none.
\<close>

definition bound_value :: "(string \<times> jsval) list \<Rightarrow> string \<Rightarrow> jsval" where
  "bound_value m k =
     (case map_of m k of
        Some v \<Rightarrow> if v = JUndefined \<or> v = JNull then JNull else v
      | None \<Rightarrow> (case inherited_object k of Some v \<Rightarrow> v | None \<Rightarrow> JNull))"

text \<open>The names of the primary-key properties of a row type.\<close>

definition pkProps :: "ReflectMeta \<Rightarrow> string list" where
  "pkProps cls = map prop_name (filter is_pk (props cls))"

subsection \<open>Separators\<close>

text \<open>
  The separators at which \<open>js_split\<close> cuts a text, in order: a semicolon with the line
  feed, or the carriage return and line feed, behind it.
\<close>

fun js_separators :: "string \<Rightarrow> string list" where
  "js_separators [] = []"
| "js_separators (c # cs) =
     (if c = CHR '';'' \<and> take 2 cs = [CHR 0x0D, CHR 0x0A]
      then [CHR '';'', CHR 0x0D, CHR 0x0A] # js_separators (drop 2 cs)
      else if c = CHR '';'' \<and> take 1 cs = [CHR 0x0A]
      then [CHR '';'', CHR 0x0A] # js_separators (drop 1 cs)
      else js_separators cs)"

section \<open>Properties of convertNamedParams\<close>

lemma IS_rec_simps [simp]:
  "IS_rec (JObj kvs)" "IS_rec (JArr xs)" "IS_rec JNull" "\<not> IS_rec JUndefined"
  "\<not> IS_rec (JBool b)" "\<not> IS_rec (JNum n)" "\<not> IS_rec (JStr t)"
  by (simp_all add: IS_rec_def)

lemmas inherited_defs =
  inherited_object_def object_prototype_functions_def
  inherited_array_def array_prototype_functions_def

lemma inherited_object_length [simp]: "inherited_object ''length'' = None"
  by (simp add: inherited_defs)

lemma word_not_dollar: "is_word_char c \<Longrightarrow> c \<noteq> CHR ''$''"
  by (auto simp: is_word_char_def)

lemma word_not_qmark: "is_word_char c \<Longrightarrow> c \<noteq> CHR ''?''"
  by (auto simp: is_word_char_def)

lemma count_tokens_dropWhile: "count_tokens (dropWhile is_word_char cs) = count_tokens cs"
  by (induction cs) (auto dest: word_not_dollar)

lemma takeWhile_ne: "takeWhile P cs \<noteq> [] \<longleftrightarrow> cs \<noteq> [] \<and> P (hd cs)"
  by (cases cs) auto

lemma recordedNames_simps:
  "recordedNames [] = []"
  "recordedNames (c # cs) =
     (if c = CHR ''$'' \<and> cs \<noteq> [] \<and> is_word_char (hd cs)
      then takeWhile is_word_char cs # recordedNames (dropWhile is_word_char cs)
      else recordedNames cs)"
  by (simp_all add: recordedNames_def case_prod_unfold takeWhile_ne)

lemma toSql_simps:
  "toSql [] = []"
  "toSql (c # cs) =
     (if c = CHR ''$'' \<and> cs \<noteq> [] \<and> is_word_char (hd cs)
      then CHR ''?'' # toSql (dropWhile is_word_char cs)
      else c # toSql cs)"
  by (simp_all add: toSql_def case_prod_unfold takeWhile_ne)

lemma text_pieces_simps:
  "text_pieces [] = [[]]"
  "text_pieces (c # cs) =
     (if c = CHR ''$'' \<and> cs \<noteq> [] \<and> is_word_char (hd cs)
      then [] # text_pieces (dropWhile is_word_char cs)
      else (case text_pieces cs of [] \<Rightarrow> [[c]] | p # ps \<Rightarrow> (c # p) # ps))"
  by (simp_all add: takeWhile_ne)

lemma length_recordedNames: "length (recordedNames s) = count_tokens s"
  by (induction s rule: replaceNamed.induct)
     (simp_all add: recordedNames_simps takeWhile_ne count_tokens_dropWhile)

lemma text_pieces_nonempty: "text_pieces s \<noteq> []"
  by (induction s rule: text_pieces.induct) (auto split: list.splits)

lemma weave_Cons_head: "weave ((c # p) # ps) ts = c # weave (p # ps) ts"
  by (cases ts) auto

lemma weave_source:
  "weave (text_pieces s) (map ((#) CHR ''$'') (recordedNames s)) = s"
proof (induction s rule: replaceNamed.induct)
  case 1
  show ?case by (simp add: recordedNames_simps)
next
  case (2 c cs)
  show ?case
  proof (cases "c = CHR ''$'' \<and> cs \<noteq> [] \<and> is_word_char (hd cs)")
    case True
    with 2(1) have "weave (text_pieces (dropWhile is_word_char cs))
        (map ((#) CHR ''$'') (recordedNames (dropWhile is_word_char cs))) = dropWhile is_word_char cs"
      by (simp add: takeWhile_ne)
    with True show ?thesis
      by (simp add: recordedNames_simps text_pieces_simps del: text_pieces.simps)
  next
    case False
    obtain p ps where ps: "text_pieces cs = p # ps"
      using text_pieces_nonempty [of cs] by (cases "text_pieces cs") auto
    from False 2(2) have "weave (text_pieces cs) (map ((#) CHR ''$'') (recordedNames cs)) = cs"
      by (simp add: takeWhile_ne)
    with False ps show ?thesis
      by (auto simp: recordedNames_simps text_pieces_simps weave_Cons_head
               simp del: text_pieces.simps)
  qed
qed

lemma weave_toSql:
  "weave (text_pieces s) (replicate (count_tokens s) ''?'') = toSql s"
proof (induction s rule: replaceNamed.induct)
  case 1
  show ?case by (simp add: toSql_simps)
next
  case (2 c cs)
  show ?case
  proof (cases "c = CHR ''$'' \<and> cs \<noteq> [] \<and> is_word_char (hd cs)")
    case True
    with 2(1) have "weave (text_pieces (dropWhile is_word_char cs))
        (replicate (count_tokens (dropWhile is_word_char cs)) ''?'') = toSql (dropWhile is_word_char cs)"
      by (simp add: takeWhile_ne)
    with True show ?thesis
      by (simp add: toSql_simps text_pieces_simps count_tokens_dropWhile
               del: text_pieces.simps)
  next
    case False
    obtain p ps where ps: "text_pieces cs = p # ps"
      using text_pieces_nonempty [of cs] by (cases "text_pieces cs") auto
    from False 2(2) have "weave (text_pieces cs) (replicate (count_tokens cs) ''?'') = toSql cs"
      by (simp add: takeWhile_ne)
    with False ps show ?thesis
      by (auto simp: toSql_simps text_pieces_simps weave_Cons_head
               simp del: text_pieces.simps)
  qed
qed

lemma count_qmark_dropWhile:
  "count_list (dropWhile is_word_char cs) (CHR ''?'') = count_list cs (CHR ''?'')"
  by (induction cs) (auto dest: word_not_qmark)

lemma count_qmark_toSql:
  "count_list (toSql s) (CHR ''?'') = count_list s (CHR ''?'') + count_tokens s"
  by (induction s rule: replaceNamed.induct)
     (simp_all add: toSql_simps takeWhile_ne count_tokens_dropWhile count_qmark_dropWhile)

lemma namedValues_ok:
  "is_object ps \<Longrightarrow>
   \<forall>n \<in> set names. \<not> truthy (js_get ps ''length'') \<or> js_in n ps \<Longrightarrow>
   namedValues ps names = Inr (map (js_get ps) names)"
  by (induction names) (cases ps; auto)+

lemma convertNamedParams_eq:
  "convertNamedParams s ps =
     (case namedValues ps (recordedNames s) of
        Inl e \<Rightarrow> Inl e
      | Inr vs \<Rightarrow> Inr \<lparr> orig = Some (s, ps), sql = toSql s, qvalues = vs,
                        paramNames = Some (recordedNames s) \<rparr>)"
  by (simp add: convertNamedParams_def recordedNames_def toSql_def case_prod_unfold
           split: sum.splits)

text \<open>
  Claim C1, as the code has it. For a text \<open>s\<close> with \<open>k = count_tokens s\<close> named
  tokens and a mapping \<open>m\<close> that is empty or has a key for every recorded name,
  convertNamedParams returns a query: it records the \<open>k\<close> names in the order of the
  tokens; its sql is the text with each token replaced, in place, by one placeholder
  \<^verbatim>\<open>?\<close>, so it holds \<open>k\<close> placeholders more than the text had question marks
  (exactly \<open>k\<close> when the text had none); its values list has length \<open>k\<close>, the
  \<open>i\<close>-th value being what the mapping gives for the \<open>i\<close>-th recorded name.
\<close>

theorem convertNamedParams_placeholders:
  assumes "m = [] \<or> set (recordedNames s) \<subseteq> fst ` set m"
  shows "\<exists>q. convertNamedParams s (JObj m) = Inr q
           \<and> paramNames q = Some (recordedNames s)
           \<and> length (recordedNames s) = count_tokens s
           \<and> s = weave (text_pieces s) (map ((#) CHR ''$'') (recordedNames s))
           \<and> sql q = weave (text_pieces s) (replicate (count_tokens s) ''?'')
           \<and> count_list (sql q) (CHR ''?'') = count_list s (CHR ''?'') + count_tokens s
           \<and> length (qvalues q) = count_tokens s
           \<and> (\<forall>i < count_tokens s. qvalues q ! i = js_get (JObj m) (recordedNames s ! i))"
proof -
  have "\<forall>n \<in> set (recordedNames s). \<not> truthy (js_get (JObj m) ''length'') \<or> js_in n (JObj m)"
    using assms by auto
  moreover have "is_object (JObj m)"
    by simp
  ultimately have nv: "namedValues (JObj m) (recordedNames s) =
                         Inr (map (js_get (JObj m)) (recordedNames s))"
    using namedValues_ok by blast
  show ?thesis
    by (simp add: convertNamedParams_eq nv length_recordedNames weave_source weave_toSql
                  count_qmark_toSql)
qed

text \<open>The theorem at \<^verbatim>\<open>$a,$b,$a\<close> with \<^verbatim>\<open>{a: 1, b: "x"}\<close>.\<close>

theorem convertNamedParams_placeholders_witness:
  "set (recordedNames ''$a,$b,$a'') \<subseteq> fst ` set [(''a'', JNum 1), (''b'', JStr ''x'')]
   \<and> (\<exists>q. convertNamedParams ''$a,$b,$a'' (JObj [(''a'', JNum 1), (''b'', JStr ''x'')]) = Inr q
         \<and> sql q = ''?,?,?''
         \<and> length (qvalues q) = 3
         \<and> qvalues q ! 1 = JStr ''x'')"
proof -
  have names: "recordedNames ''$a,$b,$a'' = [''a'', ''b'', ''a'']"
    by (simp add: recordedNames_simps is_word_char_def)
  have h: "[(''a'', JNum 1), (''b'', JStr ''x'')] = []
           \<or> set (recordedNames ''$a,$b,$a'') \<subseteq> fst ` set [(''a'', JNum 1), (''b'', JStr ''x'')]"
    by (simp add: names)
  have ct: "count_tokens ''$a,$b,$a'' = 3"
    by (simp add: is_word_char_def)
  have tp: "text_pieces ''$a,$b,$a'' = [[], '','', '','', []]"
    by (simp add: is_word_char_def)
  have one: "(1::nat) < 3"
    by simp
  from convertNamedParams_placeholders [OF h] one show ?thesis
    unfolding ct tp names by (auto simp: numeral_3_eq_3)
qed

text \<open>
  Claim C1 as stated fails in two places. A question mark of the text stays in the sql:
  \<^verbatim>\<open>SELECT ?\<close> has no named token and its query has one placeholder. And a mapping
  with a truthy \<^verbatim>\<open>length\<close> entry that lacks a recorded name gets no query but the
  error \<^verbatim>\<open>Missing parameter\<close>.
\<close>

theorem convertNamedParams_placeholders_counterexample:
  "count_tokens ''SELECT ?'' = 0
   \<and> convertNamedParams ''SELECT ?'' (JObj []) =
       Inr \<lparr> orig = Some (''SELECT ?'', JObj []), sql = ''SELECT ?'', qvalues = [],
             paramNames = Some [] \<rparr>
   \<and> count_list ''SELECT ?'' (CHR ''?'') = 1
   \<and> count_tokens ''SELECT $a'' = 1
   \<and> convertNamedParams ''SELECT $a'' (JObj [(''length'', JNum 1)]) =
       Inl (Error ''Missing parameter: a'')"
  by (simp add: convertNamedParams_def is_word_char_def inherited_defs)

section \<open>Properties of the statement operations\<close>

lemma nullish_iff: "nullish v \<longleftrightarrow> v = JUndefined \<or> v = JNull"
  by (cases v) simp_all

lemma arrays_resolved:
  "DriverStatement_params q p = Inr pv \<Longrightarrow>
   DriverStatement_arrays drv q p log =
     (drv log (QueryOptions (sql q) True pv), log @ [QueryOptions (sql q) True pv])"
  by (simp add: DriverStatement_arrays_def native_query_def)

lemma all_resolved:
  "DriverStatement_params q p = Inr pv \<Longrightarrow>
   DriverStatement_all drv q p log =
     (drv log (QueryValues (sql q) pv), log @ [QueryValues (sql q) pv])"
  by (simp add: DriverStatement_all_def unwrapQuery_def native_query_def)

lemma map_throw_total: "map_throw (\<lambda>x. Inr (f x)) xs = Inr (map f xs)"
  by (induction xs) simp_all

text \<open>
  Claim C2 fails on the code. \<^verbatim>\<open>SELECT $a\<close> with the non-empty mapping
  \<^verbatim>\<open>{b: 1}\<close>, which has no key \<^verbatim>\<open>a\<close>: the guard reads \<^verbatim>\<open>params.length\<close>,
  which a mapping does not have, so nothing is thrown and the slot is bound to
  \<^verbatim>\<open>undefined\<close>.
\<close>

theorem convertNamedParams_missing_key_returns:
  "convertNamedParams ''SELECT $a'' (JObj [(''b'', JNum 1)]) =
     Inr \<lparr> orig = Some (''SELECT $a'', JObj [(''b'', JNum 1)]), sql = ''SELECT ?'',
           qvalues = [JUndefined], paramNames = Some [''a''] \<rparr>"
  by (simp add: convertNamedParams_def is_word_char_def inherited_defs)

text \<open>
  Claim C4 fails on the code for \<^verbatim>\<open>array\<close>. On the statement that \<^verbatim>\<open>prepare\<close>
  builds for a query, with a pool that answers every call with zero rows, \<^verbatim>\<open>array\<close>
  returns \<^verbatim>\<open>undefined\<close>, where \<^verbatim>\<open>one\<close> and \<^verbatim>\<open>value\<close> return \<^verbatim>\<open>null\<close>.
\<close>

theorem array_zero_rows_undefined:
  "prepare (Str ''SELECT id FROM t WHERE 1 = 0'') [] =
     Inr \<lparr> native = \<lparr> orig = Some (''SELECT id FROM t WHERE 1 = 0'', JArr []),
                       sql = ''SELECT id FROM t WHERE 1 = 0'', qvalues = [],
                       paramNames = Some [] \<rparr>,
           as_ctor = None \<rparr>
   \<and> MySqlStatement_array (\<lambda>log c. Inr (JArr []))
       \<lparr> native = \<lparr> orig = Some (''SELECT id FROM t WHERE 1 = 0'', JArr []),
                       sql = ''SELECT id FROM t WHERE 1 = 0'', qvalues = [],
                       paramNames = Some [] \<rparr>,
           as_ctor = None \<rparr> JUndefined [] =
     (Inr JUndefined, [QueryOptions ''SELECT id FROM t WHERE 1 = 0'' True JUndefined])
   \<and> MySqlStatement_one (\<lambda>log c. Inr (JArr []))
       \<lparr> native = \<lparr> orig = Some (''SELECT id FROM t WHERE 1 = 0'', JArr []),
                       sql = ''SELECT id FROM t WHERE 1 = 0'', qvalues = [],
                       paramNames = Some [] \<rparr>,
           as_ctor = None \<rparr> JUndefined [] =
     (Inr JNull, [QueryValues ''SELECT id FROM t WHERE 1 = 0'' JUndefined])
   \<and> MySqlStatement_value (\<lambda>log c. Inr (JArr []))
       \<lparr> native = \<lparr> orig = Some (''SELECT id FROM t WHERE 1 = 0'', JArr []),
                       sql = ''SELECT id FROM t WHERE 1 = 0'', qvalues = [],
                       paramNames = Some [] \<rparr>,
           as_ctor = None \<rparr> JUndefined [] =
     (Inr JNull, [QueryOptions ''SELECT id FROM t WHERE 1 = 0'' True JUndefined])"
  by (simp add: prepare_def forNamedParams_def convertNamedParams_def is_word_char_def
        MySqlStatement_array_def DriverStatement_array_def DriverStatement_arrays_def
        DriverStatement_params_def hasParamNames_def native_query_def js_member_def
        MySqlStatement_one_def DriverStatement_get_def unwrapQuery_def js_or_def
        MySqlStatement_value_def js_map_def js_coalesce_def opt_get_def array_index_def
        is_digit_def digits_value_def result_def inherited_defs)

text \<open>
  Claim C5. When the parameters resolve and the pool answers the call of the operation
  with zero rows, \<^verbatim>\<open>all\<close>, \<^verbatim>\<open>column\<close> and \<^verbatim>\<open>arrays\<close> each return the empty
  array (not \<^verbatim>\<open>null\<close>, not \<^verbatim>\<open>undefined\<close>), after that one call.
\<close>

theorem zero_rows_empty_sequences:
  assumes "DriverStatement_params (native st) p = Inr pv"
  shows "(drv log (QueryValues (sql (native st)) pv) = Inr (JArr []) \<longrightarrow>
            MySqlStatement_all drv st p log =
              (Inr (JArr []), log @ [QueryValues (sql (native st)) pv]))
       \<and> (drv log (QueryOptions (sql (native st)) True pv) = Inr (JArr []) \<longrightarrow>
            MySqlStatement_column drv st p log =
              (Inr (JArr []), log @ [QueryOptions (sql (native st)) True pv])
          \<and> MySqlStatement_arrays drv st p log =
              (Inr (JArr []), log @ [QueryOptions (sql (native st)) True pv]))"
  using assms
  by (simp add: MySqlStatement_all_def MySqlStatement_column_def MySqlStatement_arrays_def
        all_resolved arrays_resolved js_map_def)

text \<open>The theorem on a statement without parameters, called with none.\<close>

theorem zero_rows_empty_sequences_witness:
  "MySqlStatement_all (\<lambda>log c. Inr (JArr []))
     \<lparr> native = \<lparr> orig = None, sql = ''SELECT 1 FROM t'', qvalues = [], paramNames = None \<rparr>,
       as_ctor = None \<rparr> JUndefined [] =
     (Inr (JArr []), [QueryValues ''SELECT 1 FROM t'' JUndefined])
   \<and> MySqlStatement_column (\<lambda>log c. Inr (JArr []))
     \<lparr> native = \<lparr> orig = None, sql = ''SELECT 1 FROM t'', qvalues = [], paramNames = None \<rparr>,
       as_ctor = None \<rparr> JUndefined [] =
     (Inr (JArr []), [QueryOptions ''SELECT 1 FROM t'' True JUndefined])
   \<and> MySqlStatement_arrays (\<lambda>log c. Inr (JArr []))
     \<lparr> native = \<lparr> orig = None, sql = ''SELECT 1 FROM t'', qvalues = [], paramNames = None \<rparr>,
       as_ctor = None \<rparr> JUndefined [] =
     (Inr (JArr []), [QueryOptions ''SELECT 1 FROM t'' True JUndefined])"
proof -
  have h: "DriverStatement_params
             (native \<lparr> native = \<lparr> orig = None, sql = ''SELECT 1 FROM t'', qvalues = [],
                                  paramNames = None \<rparr>, as_ctor = None \<rparr>)
             JUndefined = Inr JUndefined"
    by (simp add: DriverStatement_params_def hasParamNames_def)
  from zero_rows_empty_sequences [OF h, of "\<lambda>log c. Inr (JArr [])" "[]"]
  show ?thesis
    by simp
qed

text \<open>
  Claim C7. \<^verbatim>\<open>result\<close> maps \<^verbatim>\<open>null\<close> to \<^verbatim>\<open>null\<close> whatever the target type;
  without a target type it returns a row (a value other than \<^verbatim>\<open>undefined\<close>) as it is;
  with a target type it replaces an object row by the instance constructed from it.
  \<^verbatim>\<open>all\<close> applies it to every row and \<^verbatim>\<open>one\<close> to the row of \<^verbatim>\<open>get\<close>;
  \<^verbatim>\<open>arrays\<close> and \<^verbatim>\<open>array\<close> are the operations of the DriverStatement, and
  \<^verbatim>\<open>column\<close> and \<^verbatim>\<open>value\<close> return what they return without a target type.
\<close>

theorem materialization:
  "result \<lparr> native = q, as_ctor = a \<rparr> JNull = JNull
   \<and> (row \<noteq> JUndefined \<longrightarrow> result \<lparr> native = q, as_ctor = None \<rparr> row = row)
   \<and> result \<lparr> native = q, as_ctor = Some ctor \<rparr> (JObj kvs) = ctor (JObj kvs)
   \<and> (DriverStatement_all drv q p log = (Inr (JArr rows), log') \<longrightarrow>
        MySqlStatement_all drv \<lparr> native = q, as_ctor = a \<rparr> p log =
          (Inr (JArr (map (result \<lparr> native = q, as_ctor = a \<rparr>) rows)), log'))
   \<and> (DriverStatement_get drv q p log = (Inr r, log') \<longrightarrow>
        MySqlStatement_one drv \<lparr> native = q, as_ctor = a \<rparr> p log =
          (Inr (result \<lparr> native = q, as_ctor = a \<rparr> r), log'))
   \<and> MySqlStatement_arrays drv \<lparr> native = q, as_ctor = a \<rparr> p log =
       DriverStatement_arrays drv q p log
   \<and> MySqlStatement_array drv \<lparr> native = q, as_ctor = a \<rparr> p log =
       DriverStatement_array drv q p log
   \<and> MySqlStatement_column drv \<lparr> native = q, as_ctor = a \<rparr> p log =
       MySqlStatement_column drv \<lparr> native = q, as_ctor = None \<rparr> p log
   \<and> MySqlStatement_value drv \<lparr> native = q, as_ctor = a \<rparr> p log =
       MySqlStatement_value drv \<lparr> native = q, as_ctor = None \<rparr> p log"
proof -
  have "row \<noteq> JUndefined \<longrightarrow> result \<lparr> native = q, as_ctor = None \<rparr> row = row"
    by (cases row) (simp_all add: result_def)
  moreover have "DriverStatement_all drv q p log = (Inr (JArr rows), log') \<longrightarrow>
        MySqlStatement_all drv \<lparr> native = q, as_ctor = a \<rparr> p log =
          (Inr (JArr (map (result \<lparr> native = q, as_ctor = a \<rparr>) rows)), log')"
    by (simp add: MySqlStatement_all_def js_map_def map_throw_total)
  moreover have "DriverStatement_get drv q p log = (Inr r, log') \<longrightarrow>
        MySqlStatement_one drv \<lparr> native = q, as_ctor = a \<rparr> p log =
          (Inr (result \<lparr> native = q, as_ctor = a \<rparr> r), log')"
    by (simp add: MySqlStatement_one_def)
  ultimately show ?thesis
    by (simp add: result_def MySqlStatement_arrays_def MySqlStatement_array_def
          MySqlStatement_column_def MySqlStatement_value_def)
qed

text \<open>
  The theorem on a statement with a target type that wraps the row, and a pool that
  answers with the row \<^verbatim>\<open>{name: "Jane"}\<close>.
\<close>

theorem materialization_witness:
  "JObj [(''name'', JStr ''Jane'')] \<noteq> JUndefined
   \<and> result \<lparr> native = \<lparr> orig = None, sql = ''SELECT name FROM contact'', qvalues = [],
                          paramNames = None \<rparr>,
               as_ctor = None \<rparr> (JObj [(''name'', JStr ''Jane'')]) =
       JObj [(''name'', JStr ''Jane'')]
   \<and> MySqlStatement_all (\<lambda>log c. Inr (JArr [JObj [(''name'', JStr ''Jane'')]]))
       \<lparr> native = \<lparr> orig = None, sql = ''SELECT name FROM contact'', qvalues = [],
                       paramNames = None \<rparr>,
         as_ctor = Some (\<lambda>o'. JObj [(''Contact'', o')]) \<rparr> JUndefined [] =
       (Inr (JArr [JObj [(''Contact'', JObj [(''name'', JStr ''Jane'')])]]),
        [QueryValues ''SELECT name FROM contact'' JUndefined])
   \<and> MySqlStatement_one (\<lambda>log c. Inr (JArr [JObj [(''name'', JStr ''Jane'')]]))
       \<lparr> native = \<lparr> orig = None, sql = ''SELECT name FROM contact'', qvalues = [],
                       paramNames = None \<rparr>,
         as_ctor = Some (\<lambda>o'. JObj [(''Contact'', o')]) \<rparr> JUndefined [] =
       (Inr (JObj [(''Contact'', JObj [(''name'', JStr ''Jane'')])]),
        [QueryValues ''SELECT name FROM contact'' JUndefined])"
proof -
  let ?q = "\<lparr> orig = None, sql = ''SELECT name FROM contact'', qvalues = [],
              paramNames = None \<rparr>"
  let ?jane = "JObj [(''name'', JStr ''Jane'')]"
  let ?drv = "\<lambda>(log :: native_call list) (c :: native_call). (Inr (JArr [?jane]) :: error + jsval)"
  have ne: "?jane \<noteq> JUndefined"
    by simp
  have h_all: "DriverStatement_all ?drv ?q JUndefined [] =
                 (Inr (JArr [?jane]), [QueryValues ''SELECT name FROM contact'' JUndefined])"
    by (simp add: DriverStatement_all_def DriverStatement_params_def hasParamNames_def
          unwrapQuery_def native_query_def)
  have h_get: "DriverStatement_get ?drv ?q JUndefined [] =
                 (Inr ?jane, [QueryValues ''SELECT name FROM contact'' JUndefined])"
    by (simp add: DriverStatement_get_def DriverStatement_params_def hasParamNames_def
          unwrapQuery_def native_query_def js_member_def js_or_def array_index_def
          is_digit_def digits_value_def)
  from materialization [of ?q "Some (\<lambda>o'. JObj [(''Contact'', o')])" ?jane
         "\<lambda>o'. JObj [(''Contact'', o')]" "[(''name'', JStr ''Jane'')]" ?drv JUndefined "[]"
         "[?jane]" "[QueryValues ''SELECT name FROM contact'' JUndefined]" ?jane]
       ne h_all h_get
  show ?thesis
    by (simp add: result_def)
qed

text \<open>
  Claim C8. \<^verbatim>\<open>insert\<close> of an absent row and \<^verbatim>\<open>insertAll\<close> of no rows return the
  zero change result and leave the log of native calls as it was.
\<close>

theorem absent_row_no_call:
  "insert_row drv schema None options log = (Inr \<lparr> changes = 0, lastInsertRowid = 0 \<rparr>, log)
   \<and> insertAll drv schema [] options log = (Inr \<lparr> changes = 0, lastInsertRowid = 0 \<rparr>, log)"
  by (simp add: insert_row_def insertAll_def zero_changes_def)

lemma inherited_object_defined: "inherited_object k = Some v \<Longrightarrow> \<not> nullish v"
  by (auto simp: inherited_object_def split: if_splits)

lemma coalesce_bound: "js_coalesce (js_get (JObj m) k) JNull = bound_value m k"
proof (cases "map_of m k")
  case None
  then show ?thesis
    by (cases "inherited_object k")
       (auto simp: js_coalesce_def bound_value_def dest: inherited_object_defined)
next
  case (Some v)
  then show ?thesis
    by (auto simp: js_coalesce_def bound_value_def nullish_iff)
qed

lemma bound_value_defined: "JUndefined \<noteq> bound_value m k"
  using inherited_object_defined [of k JUndefined]
  by (auto simp: bound_value_def split: option.splits)

lemma params_named_mapping:
  "paramNames q = Some names \<Longrightarrow> names \<noteq> [] \<Longrightarrow>
   DriverStatement_params q (JObj m) = Inr (JArr (map (bound_value m) names))"
  by (simp add: DriverStatement_params_def hasParamNames_def namesOf_def coalesce_bound
           del: js_get.simps)

lemma get_log:
  "DriverStatement_params q p = Inr pv \<Longrightarrow>
   snd (DriverStatement_get drv q p log) = log @ [QueryValues (sql q) pv]"
  by (simp add: DriverStatement_get_def unwrapQuery_def native_query_def
           split: sum.splits prod.splits)

lemma array_log:
  "DriverStatement_params q p = Inr pv \<Longrightarrow>
   snd (DriverStatement_array drv q p log) = log @ [QueryOptions (sql q) True pv]"
  by (simp add: DriverStatement_array_def arrays_resolved split: sum.splits)

lemma exec_log:
  "DriverStatement_params q p = Inr pv \<Longrightarrow>
   snd (DriverStatement_exec drv q p log) = log @ [QueryOptions (sql q) True pv]"
  by (simp add: DriverStatement_exec_def arrays_resolved split: sum.splits)

lemma run_log_nonempty:
  "DriverStatement_params q p = Inr (JArr (v # vs)) \<Longrightarrow>
   snd (DriverStatement_run drv q p log) = log @ [QueryValues (sql q) (JArr (v # vs))]"
  by (simp add: DriverStatement_run_def opt_length_def opt_get_def native_query_def
           split: sum.splits)

text \<open>
  Claim C10, as the code has it. On a statement with recorded names, called with a
  mapping, \<^verbatim>\<open>params\<close> resolves to one value per recorded name, in recorded order.
  The value is what the read \<^verbatim>\<open>params[key]\<close> gives, with \<^verbatim>\<open>null\<close> in the place of
  \<^verbatim>\<open>null\<close> and \<^verbatim>\<open>undefined\<close>: so it is \<^verbatim>\<open>null\<close> for an entry that holds
  \<^verbatim>\<open>null\<close> or \<^verbatim>\<open>undefined\<close>, and for a key that the mapping lacks and
  \<^verbatim>\<open>Object.prototype\<close> does not define; it is the inherited member for a key that the
  mapping lacks and \<^verbatim>\<open>Object.prototype\<close> defines; it is the entry's value otherwise.
  No value is \<^verbatim>\<open>undefined\<close>. That list is what \<^verbatim>\<open>all\<close>, \<^verbatim>\<open>get\<close>,
  \<^verbatim>\<open>arrays\<close>, \<^verbatim>\<open>array\<close>, \<^verbatim>\<open>exec\<close> and \<^verbatim>\<open>run\<close> hand to the pool, each in
  its one native call.
\<close>

theorem named_values_bound:
  assumes "paramNames q = Some names" and "names \<noteq> []"
  shows "DriverStatement_params q (JObj m) = Inr (JArr (map (bound_value m) names))
       \<and> length (map (bound_value m) names) = length names
       \<and> JUndefined \<notin> set (map (bound_value m) names)
       \<and> (\<forall>k. map_of m k = Some JNull \<or> map_of m k = Some JUndefined \<longrightarrow>
              bound_value m k = JNull)
       \<and> (\<forall>k. map_of m k = None \<and> inherited_object k = None \<longrightarrow> bound_value m k = JNull)
       \<and> (\<forall>k v. map_of m k = None \<and> inherited_object k = Some v \<longrightarrow> bound_value m k = v)
       \<and> (\<forall>k v. map_of m k = Some v \<and> v \<noteq> JNull \<and> v \<noteq> JUndefined \<longrightarrow>
              bound_value m k = v)
       \<and> DriverStatement_all drv q (JObj m) log =
           (drv log (QueryValues (sql q) (JArr (map (bound_value m) names))),
            log @ [QueryValues (sql q) (JArr (map (bound_value m) names))])
       \<and> snd (DriverStatement_get drv q (JObj m) log) =
           log @ [QueryValues (sql q) (JArr (map (bound_value m) names))]
       \<and> DriverStatement_arrays drv q (JObj m) log =
           (drv log (QueryOptions (sql q) True (JArr (map (bound_value m) names))),
            log @ [QueryOptions (sql q) True (JArr (map (bound_value m) names))])
       \<and> snd (DriverStatement_array drv q (JObj m) log) =
           log @ [QueryOptions (sql q) True (JArr (map (bound_value m) names))]
       \<and> snd (DriverStatement_exec drv q (JObj m) log) =
           log @ [QueryOptions (sql q) True (JArr (map (bound_value m) names))]
       \<and> snd (DriverStatement_run drv q (JObj m) log) =
           log @ [QueryValues (sql q) (JArr (map (bound_value m) names))]"
proof -
  have p: "DriverStatement_params q (JObj m) = Inr (JArr (map (bound_value m) names))"
    using assms by (rule params_named_mapping)
  obtain n ns where ns: "names = n # ns"
    using assms(2) by (cases names) auto
  have r: "snd (DriverStatement_run drv q (JObj m) log) =
             log @ [QueryValues (sql q) (JArr (map (bound_value m) names))]"
    using p run_log_nonempty [of q "JObj m" "bound_value m n" "map (bound_value m) ns" drv log]
    unfolding ns by simp
  have b: "(\<forall>k. map_of m k = Some JNull \<or> map_of m k = Some JUndefined \<longrightarrow>
              bound_value m k = JNull)
       \<and> (\<forall>k. map_of m k = None \<and> inherited_object k = None \<longrightarrow> bound_value m k = JNull)
       \<and> (\<forall>k v. map_of m k = None \<and> inherited_object k = Some v \<longrightarrow> bound_value m k = v)
       \<and> (\<forall>k v. map_of m k = Some v \<and> v \<noteq> JNull \<and> v \<noteq> JUndefined \<longrightarrow>
              bound_value m k = v)"
    by (auto simp: bound_value_def)
  from b r show ?thesis
    by (simp add: p all_resolved arrays_resolved get_log array_log exec_log
          bound_value_defined image_iff)
qed

text \<open>
  The theorem on the query of \<^verbatim>\<open>SELECT $a, $b, $c, $toString\<close>, called with
  \<^verbatim>\<open>{a: 1, b: undefined}\<close>.
\<close>

theorem named_values_bound_witness:
  "DriverStatement_params
     \<lparr> orig = None, sql = ''SELECT ?, ?, ?, ?'',
       qvalues = [JUndefined, JUndefined, JUndefined, JUndefined],
       paramNames = Some [''a'', ''b'', ''c'', ''toString''] \<rparr>
     (JObj [(''a'', JNum 1), (''b'', JUndefined)]) =
     Inr (JArr [JNum 1, JNull, JNull, JBuiltin ''Object.prototype.toString''])"
proof -
  have h1: "paramNames \<lparr> orig = None, sql = ''SELECT ?, ?, ?, ?'',
                          qvalues = [JUndefined, JUndefined, JUndefined, JUndefined],
                          paramNames = Some [''a'', ''b'', ''c'', ''toString''] \<rparr> =
              Some [''a'', ''b'', ''c'', ''toString'']"
    by simp
  have h2: "[''a'', ''b'', ''c'', ''toString''] \<noteq> []"
    by simp
  from named_values_bound [OF h1 h2, of "[(''a'', JNum 1), (''b'', JUndefined)]"]
  show ?thesis
    by (simp add: bound_value_def inherited_defs)
qed

text \<open>
  Claim C10 as stated fails on the code. \<^verbatim>\<open>SELECT $constructor\<close> is prepared, and
  the statement is called with the mapping \<^verbatim>\<open>{}\<close>, in which the key is absent: the
  slot is bound to the function \<^verbatim>\<open>Object\<close> that the mapping inherits, not to
  \<^verbatim>\<open>null\<close>.
\<close>

theorem named_values_bound_counterexample:
  "forNamedParams ''SELECT $constructor'' (JArr []) =
     Inr \<lparr> orig = Some (''SELECT $constructor'', JArr []), sql = ''SELECT ?'',
           qvalues = [JBuiltin ''Array''], paramNames = Some [''constructor''] \<rparr>
   \<and> map_of ([] :: (string \<times> jsval) list) ''constructor'' = None
   \<and> DriverStatement_params
       \<lparr> orig = Some (''SELECT $constructor'', JArr []), sql = ''SELECT ?'',
         qvalues = [JBuiltin ''Array''], paramNames = Some [''constructor''] \<rparr>
       (JObj []) = Inr (JArr [JBuiltin ''Object''])"
  by (simp add: forNamedParams_def convertNamedParams_def is_word_char_def
        DriverStatement_params_def hasParamNames_def namesOf_def js_coalesce_def
        array_index_def is_digit_def inherited_defs)

section \<open>Properties of the row-mutation helpers\<close>

lemma set_foldl_add:
  "set (foldl (\<lambda>acc x. if x \<in> set acc then acc else acc @ [x]) acc xs) = set acc \<union> set xs"
  by (induction xs arbitrary: acc) auto

lemma distinct_foldl_add:
  "distinct acc \<Longrightarrow> distinct (foldl (\<lambda>acc x. if x \<in> set acc then acc else acc @ [x]) acc xs)"
  by (induction xs arbitrary: acc) auto

lemma set_set_from: "set (set_from xs) = set xs"
  by (simp add: set_from_def set_foldl_add)

lemma distinct_set_from: "distinct (set_from xs)"
  by (simp add: set_from_def distinct_foldl_add)

lemma set_pkNames:
  "set (pkNames cls) =
     {column_name c |x c. x \<in> set (props cls) \<and> column x = Some c \<and> primaryKey c}"
  by (fastforce simp: pkNames_def is_pk_def split: option.splits)

lemma pkNames_pkProps:
  "(\<forall>x \<in> set xs. \<forall>c. column x = Some c \<longrightarrow> column_name c = prop_name x) \<Longrightarrow>
   concat (map (\<lambda>x. case column x of None \<Rightarrow> [] | Some c \<Rightarrow> [column_name c]) (filter is_pk xs))
     = map prop_name (filter is_pk xs)"
  by (induction xs) (auto simp: is_pk_def split: option.splits)

lemma update_onlyProps_union:
  "distinct (update_onlyProps r options)
   \<and> set (update_onlyProps r options) =
       set (requestedProps r options) \<union> set (pkNames (constructor r))"
  by (simp add: update_onlyProps_def set_set_from distinct_set_from)

text \<open>
  Claim C9 fails on the code. A row type has the primary-key property \<^verbatim>\<open>id\<close>, whose
  column definition carries the name \<^verbatim>\<open>contact_id\<close>, and the property
  \<^verbatim>\<open>email\<close>. \<^verbatim>\<open>update\<close> with \<^verbatim>\<open>{onlyProps: ['email']}\<close> adds the name of
  the column definition, not the name of the property: the list that goes to the SQL
  generator and to the serializer is \<^verbatim>\<open>['email', 'contact_id']\<close>, and the
  primary-key property \<^verbatim>\<open>id\<close> is not in it.
\<close>

theorem update_aliased_key_dropped:
  "pkProps \<lparr> props =
      [\<lparr> prop_name = ''id'',
         column = Some \<lparr> column_name = ''contact_id'', primaryKey = True \<rparr> \<rparr>,
       \<lparr> prop_name = ''email'',
         column = Some \<lparr> column_name = ''email'', primaryKey = False \<rparr> \<rparr>] \<rparr> = [''id'']
   \<and> update_onlyProps
       \<lparr> constructor = \<lparr> props =
           [\<lparr> prop_name = ''id'',
              column = Some \<lparr> column_name = ''contact_id'', primaryKey = True \<rparr> \<rparr>,
            \<lparr> prop_name = ''email'',
              column = Some \<lparr> column_name = ''email'', primaryKey = False \<rparr> \<rparr>] \<rparr>,
         own = [(''id'', JNum 1), (''email'', JStr ''jane@mail.org'')] \<rparr>
       (Some \<lparr> onlyProps = Some [''email''], onlyWithValues = False \<rparr>)
       = [''email'', ''contact_id'']
   \<and> ''id'' \<notin> set [''email'', ''contact_id'']
   \<and> update_row drv schema
       (Some \<lparr> constructor = \<lparr> props =
           [\<lparr> prop_name = ''id'',
              column = Some \<lparr> column_name = ''contact_id'', primaryKey = True \<rparr> \<rparr>,
            \<lparr> prop_name = ''email'',
              column = Some \<lparr> column_name = ''email'', primaryKey = False \<rparr> \<rparr>] \<rparr>,
         own = [(''id'', JNum 1), (''email'', JStr ''jane@mail.org'')] \<rparr>)
       (Some \<lparr> onlyProps = Some [''email''], onlyWithValues = False \<rparr>) log
       = (case prepare (Str (schema_update schema
              \<lparr> props =
                  [\<lparr> prop_name = ''id'',
                     column = Some \<lparr> column_name = ''contact_id'', primaryKey = True \<rparr> \<rparr>,
                   \<lparr> prop_name = ''email'',
                     column = Some \<lparr> column_name = ''email'', primaryKey = False \<rparr> \<rparr>] \<rparr>
              (Some [''email'', ''contact_id'']))) [] of
            Inl e \<Rightarrow> (Inl e, log)
          | Inr stmt \<Rightarrow>
              MySqlStatement_exec drv stmt
                (toDbObject schema
                   \<lparr> constructor = \<lparr> props =
                       [\<lparr> prop_name = ''id'',
                          column = Some \<lparr> column_name = ''contact_id'', primaryKey = True \<rparr> \<rparr>,
                        \<lparr> prop_name = ''email'',
                          column = Some \<lparr> column_name = ''email'', primaryKey = False \<rparr> \<rparr>] \<rparr>,
                     own = [(''id'', JNum 1), (''email'', JStr ''jane@mail.org'')] \<rparr>
                   (Some [''email'', ''contact_id''])) log)"
proof -
  have only: "update_onlyProps
       \<lparr> constructor = \<lparr> props =
           [\<lparr> prop_name = ''id'',
              column = Some \<lparr> column_name = ''contact_id'', primaryKey = True \<rparr> \<rparr>,
            \<lparr> prop_name = ''email'',
              column = Some \<lparr> column_name = ''email'', primaryKey = False \<rparr> \<rparr>] \<rparr>,
         own = [(''id'', JNum 1), (''email'', JStr ''jane@mail.org'')] \<rparr>
       (Some \<lparr> onlyProps = Some [''email''], onlyWithValues = False \<rparr>)
       = [''email'', ''contact_id'']"
    by (simp add: update_onlyProps_def requestedProps_def pkNames_def is_pk_def set_from_def)
  show ?thesis
    by (simp add: only pkProps_def is_pk_def update_row_def wantsOnly_def Let_def)
qed

section \<open>Properties of run\<close>

lemma run_each_all_succeed:
  "(\<forall>i < length stmts. \<exists>r. drv (log @ map QuerySql (take i stmts)) (QuerySql (stmts ! i)) = Inr r)
   \<Longrightarrow> run_each drv stmts log = (Inr (), log @ map QuerySql stmts)"
proof (induction stmts arbitrary: log)
  case Nil
  show ?case by simp
next
  case (Cons s stmts)
  from Cons.prems [rule_format, of 0] obtain r where r: "drv log (QuerySql s) = Inr r"
    by auto
  have "\<forall>i < length stmts. \<exists>r. drv ((log @ [QuerySql s]) @ map QuerySql (take i stmts))
                                   (QuerySql (stmts ! i)) = Inr r"
  proof (intro allI impI)
    fix i
    assume "i < length stmts"
    with Cons.prems [rule_format, of "Suc i"]
    show "\<exists>r. drv ((log @ [QuerySql s]) @ map QuerySql (take i stmts)) (QuerySql (stmts ! i)) = Inr r"
      by simp
  qed
  then have "run_each drv stmts (log @ [QuerySql s]) =
               (Inr (), (log @ [QuerySql s]) @ map QuerySql stmts)"
    by (rule Cons.IH)
  with r show ?case
    by (simp add: native_query_def)
qed

lemma run_each_first_failure:
  "k < length stmts \<Longrightarrow>
   (\<forall>i < k. \<exists>r. drv (log @ map QuerySql (take i stmts)) (QuerySql (stmts ! i)) = Inr r) \<Longrightarrow>
   drv (log @ map QuerySql (take k stmts)) (QuerySql (stmts ! k)) = Inl e \<Longrightarrow>
   run_each drv stmts log = (Inl e, log @ map QuerySql (take (Suc k) stmts))"
proof (induction stmts arbitrary: log k)
  case Nil
  then show ?case by simp
next
  case (Cons s stmts)
  show ?case
  proof (cases k)
    case 0
    with Cons.prems(3) show ?thesis
      by (simp add: native_query_def)
  next
    case (Suc j)
    from Cons.prems(2) [rule_format, of 0] Suc obtain r where r: "drv log (QuerySql s) = Inr r"
      by auto
    have j: "j < length stmts"
      using Cons.prems(1) Suc by simp
    have ok: "\<forall>i < j. \<exists>r. drv ((log @ [QuerySql s]) @ map QuerySql (take i stmts))
                                (QuerySql (stmts ! i)) = Inr r"
    proof (intro allI impI)
      fix i
      assume "i < j"
      with Cons.prems(2) [rule_format, of "Suc i"] Suc
      show "\<exists>r. drv ((log @ [QuerySql s]) @ map QuerySql (take i stmts)) (QuerySql (stmts ! i)) = Inr r"
        by simp
    qed
    have bad: "drv ((log @ [QuerySql s]) @ map QuerySql (take j stmts)) (QuerySql (stmts ! j)) = Inl e"
      using Cons.prems(3) Suc by simp
    from Cons.IH [OF j ok bad] r Suc show ?thesis
      by (simp add: native_query_def)
  qed
qed

lemma params_shapes:
  "(\<exists>e. DriverStatement_params q p = Inl e)
   \<or> DriverStatement_params q p = Inr JUndefined
   \<or> (\<exists>xs. DriverStatement_params q p = Inr (JArr xs))"
  by (cases p) (auto simp: DriverStatement_params_def)

text \<open>
  Claim C3, as the code has it. \<^verbatim>\<open>run\<close> decides by the value list that
  \<^verbatim>\<open>params\<close> resolves, which is an error, \<^verbatim>\<open>undefined\<close> or an array. On an error
  \<^verbatim>\<open>run\<close> fails with it and makes no native call. On \<^verbatim>\<open>undefined\<close> or the empty
  array it runs the loop over the split statements: when every call succeeds the
  fragments are the native calls made, one each in source order; when the call of
  fragment \<open>k\<close> is the first to fail, \<^verbatim>\<open>run\<close> fails with that failure after the calls
  of the fragments up to \<open>k\<close>, and makes no call for the others. On a non-empty array it
  makes exactly one native call, with the unsplit SQL and the array. An absent source on
  a statement with at most one value, or an empty array on a statement without recorded
  names, resolves to \<^verbatim>\<open>undefined\<close> or the empty array; a mapping on a statement with
  recorded names, or a non-empty array on a statement without, resolves to a non-empty
  array.
\<close>

theorem run_by_resolved_values:
  "(DriverStatement_params q p = Inl e \<longrightarrow> DriverStatement_run drv q p log = (Inl e, log))
   \<and> (DriverStatement_params q p = Inr JUndefined \<or> DriverStatement_params q p = Inr (JArr []) \<longrightarrow>
        DriverStatement_run drv q p log = run_each drv (splitSqlStatements (sql q)) log)
   \<and> (DriverStatement_params q p = Inr (JArr (v # vs)) \<longrightarrow>
        DriverStatement_run drv q p log =
          (map_sum id (\<lambda>r. ()) (drv log (QueryValues (sql q) (JArr (v # vs)))),
           log @ [QueryValues (sql q) (JArr (v # vs))]))
   \<and> ((\<exists>e'. DriverStatement_params q p = Inl e')
        \<or> DriverStatement_params q p = Inr JUndefined
        \<or> (\<exists>xs. DriverStatement_params q p = Inr (JArr xs)))
   \<and> ((\<forall>i < length stmts. \<exists>r. drv (log @ map QuerySql (take i stmts)) (QuerySql (stmts ! i)) = Inr r)
        \<longrightarrow> run_each drv stmts log = (Inr (), log @ map QuerySql stmts))
   \<and> (k < length stmts
        \<and> (\<forall>i < k. \<exists>r. drv (log @ map QuerySql (take i stmts)) (QuerySql (stmts ! i)) = Inr r)
        \<and> drv (log @ map QuerySql (take k stmts)) (QuerySql (stmts ! k)) = Inl e
        \<longrightarrow> run_each drv stmts log = (Inl e, log @ map QuerySql (take (Suc k) stmts)))
   \<and> (length (qvalues q) \<le> 1 \<longrightarrow> DriverStatement_params q JUndefined = Inr JUndefined)
   \<and> (\<not> hasParamNames q \<longrightarrow> DriverStatement_params q (JArr xs) = Inr (JArr xs))
   \<and> (hasParamNames q \<longrightarrow>
        (\<exists>v' vs'. DriverStatement_params q (JObj m) = Inr (JArr (v' # vs'))))"
proof -
  have 1: "DriverStatement_params q p = Inl e \<longrightarrow> DriverStatement_run drv q p log = (Inl e, log)"
    by (simp add: DriverStatement_run_def)
  have 2: "DriverStatement_params q p = Inr JUndefined \<or> DriverStatement_params q p = Inr (JArr []) \<longrightarrow>
        DriverStatement_run drv q p log = run_each drv (splitSqlStatements (sql q)) log"
    by (auto simp: DriverStatement_run_def opt_length_def opt_get_def)
  have 3: "DriverStatement_params q p = Inr (JArr (v # vs)) \<longrightarrow>
        DriverStatement_run drv q p log =
          (map_sum id (\<lambda>r. ()) (drv log (QueryValues (sql q) (JArr (v # vs)))),
           log @ [QueryValues (sql q) (JArr (v # vs))])"
    by (cases "drv log (QueryValues (sql q) (JArr (v # vs)))")
       (simp_all add: DriverStatement_run_def opt_length_def opt_get_def native_query_def)
  have 5: "(\<forall>i < length stmts. \<exists>r. drv (log @ map QuerySql (take i stmts)) (QuerySql (stmts ! i)) = Inr r)
        \<longrightarrow> run_each drv stmts log = (Inr (), log @ map QuerySql stmts)"
    using run_each_all_succeed [of stmts drv log] by blast
  have 6: "k < length stmts
        \<and> (\<forall>i < k. \<exists>r. drv (log @ map QuerySql (take i stmts)) (QuerySql (stmts ! i)) = Inr r)
        \<and> drv (log @ map QuerySql (take k stmts)) (QuerySql (stmts ! k)) = Inl e
        \<longrightarrow> run_each drv stmts log = (Inl e, log @ map QuerySql (take (Suc k) stmts))"
    using run_each_first_failure [of k stmts drv log e] by blast
  have 7: "length (qvalues q) \<le> 1 \<longrightarrow> DriverStatement_params q JUndefined = Inr JUndefined"
    by (cases "qvalues q") (auto simp: DriverStatement_params_def)
  have 8: "\<not> hasParamNames q \<longrightarrow> DriverStatement_params q (JArr xs) = Inr (JArr xs)"
    by (simp add: DriverStatement_params_def)
  have 9: "hasParamNames q \<longrightarrow>
        (\<exists>v' vs'. DriverStatement_params q (JObj m) = Inr (JArr (v' # vs')))"
    by (cases "namesOf q")
       (auto simp: DriverStatement_params_def hasParamNames_def namesOf_def split: option.splits)
  from 1 2 3 params_shapes [of q p] 5 6 7 8 9 show ?thesis
    by blast
qed

text \<open>
  The theorem on four runs. A script of two statements, prepared and run without
  parameters, against a pool that answers every call: two native calls, one per
  fragment, in order. The same against a pool that fails every call: the failure of the
  first fragment, and no call for the second. A statement with two named tokens run with
  the mapping \<^verbatim>\<open>{a: 1}\<close>: one native call with the unsplit SQL. The same run without
  parameters: \<^verbatim>\<open>params\<close> throws, and no call is made.
\<close>

theorem run_by_resolved_values_witness:
  "DriverStatement_run (\<lambda>log c. Inr (JArr []))
     \<lparr> orig = Some (''CREATE TABLE a(id INT);\<newline>CREATE TABLE b(id INT);'', JArr []),
       sql = ''CREATE TABLE a(id INT);\<newline>CREATE TABLE b(id INT);'', qvalues = [],
       paramNames = Some [] \<rparr> JUndefined [] =
     (Inr (), [QuerySql ''CREATE TABLE a(id INT)'', QuerySql ''CREATE TABLE b(id INT);''])
   \<and> DriverStatement_run (\<lambda>log c. Inl (Error ''refused''))
     \<lparr> orig = Some (''CREATE TABLE a(id INT);\<newline>CREATE TABLE b(id INT);'', JArr []),
       sql = ''CREATE TABLE a(id INT);\<newline>CREATE TABLE b(id INT);'', qvalues = [],
       paramNames = Some [] \<rparr> JUndefined [] =
     (Inl (Error ''refused''), [QuerySql ''CREATE TABLE a(id INT)''])
   \<and> DriverStatement_run (\<lambda>log c. Inr (JArr []))
     \<lparr> orig = Some (''CALL f($a);\<newline>CALL g($a)'', JArr []),
       sql = ''CALL f(?);\<newline>CALL g(?)'', qvalues = [JUndefined, JUndefined],
       paramNames = Some [''a'', ''a''] \<rparr> (JObj [(''a'', JNum 1)]) [] =
     (Inr (), [QueryValues ''CALL f(?);\<newline>CALL g(?)'' (JArr [JNum 1, JNum 1])])
   \<and> DriverStatement_run (\<lambda>log c. Inr (JArr []))
     \<lparr> orig = Some (''CALL f($a);\<newline>CALL g($a)'', JArr []),
       sql = ''CALL f(?);\<newline>CALL g(?)'', qvalues = [JUndefined, JUndefined],
       paramNames = Some [''a'', ''a''] \<rparr> JUndefined [] =
     (Inl (Error ''Invalid params (undefined) for query: CALL f(?);\<newline>CALL g(?)''), [])"
proof -
  let ?ok = "\<lambda>(log :: native_call list) (c :: native_call). (Inr (JArr []) :: error + jsval)"
  let ?no = "\<lambda>(log :: native_call list) (c :: native_call). (Inl (Error ''refused'') :: error + jsval)"
  let ?q0 = "\<lparr> orig = Some (''CREATE TABLE a(id INT);\<newline>CREATE TABLE b(id INT);'', JArr []),
       sql = ''CREATE TABLE a(id INT);\<newline>CREATE TABLE b(id INT);'', qvalues = [],
       paramNames = Some [] \<rparr>"
  let ?q1 = "\<lparr> orig = Some (''CALL f($a);\<newline>CALL g($a)'', JArr []),
       sql = ''CALL f(?);\<newline>CALL g(?)'', qvalues = [JUndefined, JUndefined],
       paramNames = Some [''a'', ''a''] \<rparr>"
  let ?frags = "[''CREATE TABLE a(id INT)'', ''CREATE TABLE b(id INT);'']"
  have sp: "splitSqlStatements (sql ?q0) = ?frags"
    by (simp add: splitSqlStatements_def trim_def is_space_def)
  have p0: "DriverStatement_params ?q0 JUndefined = Inr JUndefined"
    by (simp add: DriverStatement_params_def hasParamNames_def)
  have p1: "DriverStatement_params ?q1 (JObj [(''a'', JNum 1)]) = Inr (JArr [JNum 1, JNum 1])"
    by (simp add: DriverStatement_params_def hasParamNames_def namesOf_def js_coalesce_def)
  have p2: "DriverStatement_params ?q1 JUndefined =
              Inl (Error ''Invalid params (undefined) for query: CALL f(?);\<newline>CALL g(?)'')"
    by (simp add: DriverStatement_params_def hasParamNames_def)
  have all_ok: "\<forall>i < length ?frags. \<exists>r. ?ok ([] @ map QuerySql (take i ?frags)) (QuerySql (?frags ! i)) = Inr r"
    by simp
  have zero: "(0::nat) < length ?frags"
    by simp
  have none_before: "\<forall>i < (0::nat). \<exists>r. ?no ([] @ map QuerySql (take i ?frags)) (QuerySql (?frags ! i)) = Inr r"
    by simp
  have fails: "?no ([] @ map QuerySql (take 0 ?frags)) (QuerySql (?frags ! 0)) = Inl (Error ''refused'')"
    by simp
  have a: "DriverStatement_run ?ok ?q0 JUndefined [] = (Inr (), map QuerySql ?frags)"
    using run_by_resolved_values [where q = ?q0 and p = JUndefined and drv = ?ok and log = "[]"
            and stmts = ?frags] p0 all_ok
    unfolding sp by simp
  have b: "DriverStatement_run ?no ?q0 JUndefined [] = (Inl (Error ''refused''), map QuerySql (take (Suc 0) ?frags))"
    using run_by_resolved_values [where q = ?q0 and p = JUndefined and drv = ?no and log = "[]"
            and stmts = ?frags and k = 0 and e = "Error ''refused''"] p0 zero none_before fails
    unfolding sp by simp
  have c: "DriverStatement_run ?ok ?q1 (JObj [(''a'', JNum 1)]) [] =
             (map_sum id (\<lambda>r. ()) (?ok [] (QueryValues (sql ?q1) (JArr [JNum 1, JNum 1]))),
              [] @ [QueryValues (sql ?q1) (JArr [JNum 1, JNum 1])])"
    using run_by_resolved_values [where q = ?q1 and p = "JObj [(''a'', JNum 1)]" and drv = ?ok
            and log = "[]" and v = "JNum 1" and vs = "[JNum 1]"] p1
    by blast
  have d: "DriverStatement_run ?ok ?q1 JUndefined [] =
             (Inl (Error ''Invalid params (undefined) for query: CALL f(?);\<newline>CALL g(?)''), [])"
    using run_by_resolved_values [where q = ?q1 and p = JUndefined and drv = ?ok and log = "[]"
            and e = "Error ''Invalid params (undefined) for query: CALL f(?);\<newline>CALL g(?)''"] p2
    by blast
  from a b c d show ?thesis
    by simp
qed

text \<open>
  Claim C3 as stated fails on the code. A script of two statements without named tokens,
  prepared and run with the non-empty mapping \<^verbatim>\<open>{x: 1}\<close>, is split and makes two
  native calls. A script with named tokens run with the empty mapping \<^verbatim>\<open>{}\<close> is not
  split and makes one call. The same script run without any parameters makes no call:
  \<^verbatim>\<open>params\<close> throws.
\<close>

theorem run_by_resolved_values_counterexample:
  "forNamedParams ''CREATE TABLE a(id INT);\<newline>CREATE TABLE b(id INT);'' (JArr []) =
     Inr \<lparr> orig = Some (''CREATE TABLE a(id INT);\<newline>CREATE TABLE b(id INT);'', JArr []),
           sql = ''CREATE TABLE a(id INT);\<newline>CREATE TABLE b(id INT);'', qvalues = [],
           paramNames = Some [] \<rparr>
   \<and> DriverStatement_run (\<lambda>log c. Inr (JArr []))
       \<lparr> orig = Some (''CREATE TABLE a(id INT);\<newline>CREATE TABLE b(id INT);'', JArr []),
         sql = ''CREATE TABLE a(id INT);\<newline>CREATE TABLE b(id INT);'', qvalues = [],
         paramNames = Some [] \<rparr> (JObj [(''x'', JNum 1)]) [] =
       (Inr (), [QuerySql ''CREATE TABLE a(id INT)'', QuerySql ''CREATE TABLE b(id INT);''])
   \<and> forNamedParams ''CALL f($a);\<newline>CALL g($a)'' (JArr []) =
       Inr \<lparr> orig = Some (''CALL f($a);\<newline>CALL g($a)'', JArr []),
             sql = ''CALL f(?);\<newline>CALL g(?)'', qvalues = [JUndefined, JUndefined],
             paramNames = Some [''a'', ''a''] \<rparr>
   \<and> DriverStatement_run (\<lambda>log c. Inr (JArr []))
       \<lparr> orig = Some (''CALL f($a);\<newline>CALL g($a)'', JArr []),
         sql = ''CALL f(?);\<newline>CALL g(?)'', qvalues = [JUndefined, JUndefined],
         paramNames = Some [''a'', ''a''] \<rparr> (JObj []) [] =
       (Inr (), [QueryValues ''CALL f(?);\<newline>CALL g(?)'' (JArr [JNull, JNull])])
   \<and> DriverStatement_run (\<lambda>log c. Inr (JArr []))
       \<lparr> orig = Some (''CALL f($a);\<newline>CALL g($a)'', JArr []),
         sql = ''CALL f(?);\<newline>CALL g(?)'', qvalues = [JUndefined, JUndefined],
         paramNames = Some [''a'', ''a''] \<rparr> JUndefined [] =
       (Inl (Error ''Invalid params (undefined) for query: CALL f(?);\<newline>CALL g(?)''), [])"
  by (simp add: forNamedParams_def convertNamedParams_def is_word_char_def
        DriverStatement_run_def DriverStatement_params_def hasParamNames_def namesOf_def
        js_coalesce_def opt_length_def opt_get_def native_query_def splitSqlStatements_def
        trim_def is_space_def array_index_def is_digit_def digits_value_def inherited_defs)

section \<open>Properties of splitSqlStatements\<close>

lemma js_split_nonempty: "js_split s \<noteq> []"
  by (induction s rule: js_split.induct) (auto split: list.splits)

lemma length_js_split: "length (js_split s) = length (js_separators s) + 1"
  by (induction s rule: js_split.induct) (auto split: list.splits)

lemma take_drop_2: "take 2 cs = [a, b] \<Longrightarrow> a # b # drop 2 cs = cs"
  by (metis append_Cons append_Nil append_take_drop_id)

lemma take_drop_1: "take 1 cs = [a] \<Longrightarrow> a # drop 1 cs = cs"
  by (metis append_Cons append_Nil append_take_drop_id)

lemma weave_js_split: "weave (js_split s) (js_separators s) = s"
proof (induction s rule: js_split.induct)
  case 1
  show ?case by simp
next
  case (2 c cs)
  consider (crlf) "c = CHR '';''" "take 2 cs = [CHR 0x0D, CHR 0x0A]"
    | (lf) "c = CHR '';''" "take 2 cs \<noteq> [CHR 0x0D, CHR 0x0A]" "take 1 cs = [CHR 0x0A]"
    | (none) "\<not> (c = CHR '';'' \<and> take 2 cs = [CHR 0x0D, CHR 0x0A])"
             "\<not> (c = CHR '';'' \<and> take 1 cs = [CHR 0x0A])"
    by blast
  then show ?case
  proof cases
    case crlf
    with 2(1) have "weave (js_split (drop 2 cs)) (js_separators (drop 2 cs)) = drop 2 cs"
      by simp
    with crlf show ?thesis
      by (simp add: take_drop_2)
  next
    case lf
    with 2(2) have "weave (js_split (drop 1 cs)) (js_separators (drop 1 cs)) = drop 1 cs"
      by simp
    with lf show ?thesis
      using take_drop_1 [of cs "CHR 0x0A"] by simp
  next
    case none
    obtain p ps where ps: "js_split cs = p # ps"
      using js_split_nonempty [of cs] by (cases "js_split cs") auto
    from none 2(3) have "weave (js_split cs) (js_separators cs) = cs"
      by simp
    with none ps show ?thesis
      by (auto simp: weave_Cons_head)
  qed
qed

lemma js_separators_shape:
  "sep \<in> set (js_separators s) \<Longrightarrow>
   sep = [CHR '';'', CHR 0x0A] \<or> sep = [CHR '';'', CHR 0x0D, CHR 0x0A]"
  by (induction s rule: js_separators.induct) (auto split: if_splits)

lemma prefix_hd_js_split: "prefix (hd (js_split s)) s"
  by (induction s rule: js_split.induct) (auto split: list.splits)

lemma prefix_take: "prefix xs ys \<Longrightarrow> take (length xs) ys = xs"
  by (auto simp: prefix_def)

lemma js_split_maximal:
  "p \<in> set (js_split s) \<Longrightarrow>
   \<not> sublist [CHR '';'', CHR 0x0A] p \<and> \<not> sublist [CHR '';'', CHR 0x0D, CHR 0x0A] p"
proof (induction s arbitrary: p rule: js_split.induct)
  case 1
  then show ?case by simp
next
  case (2 c cs)
  consider (crlf) "c = CHR '';''" "take 2 cs = [CHR 0x0D, CHR 0x0A]"
    | (lf) "c = CHR '';''" "take 2 cs \<noteq> [CHR 0x0D, CHR 0x0A]" "take 1 cs = [CHR 0x0A]"
    | (none) "\<not> (c = CHR '';'' \<and> take 2 cs = [CHR 0x0D, CHR 0x0A])"
             "\<not> (c = CHR '';'' \<and> take 1 cs = [CHR 0x0A])"
    by blast
  then show ?case
  proof cases
    case crlf
    with 2(1) [of p] 2(4) show ?thesis
      by auto
  next
    case lf
    with 2(2) [of p] 2(4) show ?thesis
      by auto
  next
    case none
    obtain q qs where qs: "js_split cs = q # qs"
      using js_split_nonempty [of cs] by (cases "js_split cs") auto
    have pq: "prefix q cs"
      using prefix_hd_js_split [of cs] qs by simp
    from none qs 2(4) have "p = c # q \<or> p \<in> set qs"
      by auto
    then show ?thesis
    proof
      assume "p \<in> set qs"
      with none qs 2(3) [of p] show ?thesis
        by auto
    next
      assume p: "p = c # q"
      from none qs 2(3) [of q]
      have q: "\<not> sublist [CHR '';'', CHR 0x0A] q" "\<not> sublist [CHR '';'', CHR 0x0D, CHR 0x0A] q"
        by auto
      have a: "\<not> prefix [CHR '';'', CHR 0x0A] (c # q)"
      proof
        assume "prefix [CHR '';'', CHR 0x0A] (c # q)"
        then have "c = CHR '';''" and "prefix [CHR 0x0A] q"
          by auto
        with pq have "prefix [CHR 0x0A] cs"
          by (meson prefix_order.trans)
        then have "take 1 cs = [CHR 0x0A]"
          using prefix_take [of "[CHR 0x0A]" cs] by simp
        with \<open>c = CHR '';''\<close> none show False
          by simp
      qed
      have b: "\<not> prefix [CHR '';'', CHR 0x0D, CHR 0x0A] (c # q)"
      proof
        assume "prefix [CHR '';'', CHR 0x0D, CHR 0x0A] (c # q)"
        then have "c = CHR '';''" and "prefix [CHR 0x0D, CHR 0x0A] q"
          by auto
        with pq have "prefix [CHR 0x0D, CHR 0x0A] cs"
          by (meson prefix_order.trans)
        then have "take 2 cs = [CHR 0x0D, CHR 0x0A]"
          using prefix_take [of "[CHR 0x0D, CHR 0x0A]" cs] by (simp add: numeral_2_eq_2)
        with \<open>c = CHR '';''\<close> none show False
          by simp
      qed
      from a b q show ?thesis
        unfolding p by (simp add: sublist_Cons_right)
    qed
  qed
qed

lemma trim_decomposition:
  "p = takeWhile is_space p @ trim p @ rev (takeWhile is_space (rev (dropWhile is_space p)))"
proof -
  let ?d = "dropWhile is_space p"
  have "rev (takeWhile is_space (rev ?d) @ dropWhile is_space (rev ?d)) = ?d"
    by (simp only: takeWhile_dropWhile_id rev_rev_ident)
  then have "trim p @ rev (takeWhile is_space (rev ?d)) = ?d"
    by (simp only: rev_append trim_def)
  moreover have "p = takeWhile is_space p @ ?d"
    by simp
  ultimately show ?thesis
    by simp
qed

lemma sublist_trans: "sublist xs ys \<Longrightarrow> sublist ys zs \<Longrightarrow> sublist xs zs"
  unfolding sublist_def by (metis append.assoc)

lemma trim_sublist: "sublist (trim p) p"
  using trim_decomposition [of p] by (metis sublist_appendI)

lemma trim_ends:
  assumes "trim p \<noteq> []"
  shows "\<not> is_space (hd (trim p)) \<and> \<not> is_space (last (trim p))"
proof -
  let ?d = "dropWhile is_space p"
  let ?e = "dropWhile is_space (rev ?d)"
  from assms have e: "?e \<noteq> []"
    by (simp add: trim_def)
  then have d: "?d \<noteq> []"
    by (metis dropWhile.simps(1) rev_is_Nil_conv)
  have "last (trim p) = hd ?e"
    using e by (simp add: trim_def last_rev)
  moreover have "\<not> is_space (hd ?e)"
    using e hd_dropWhile by blast
  moreover have "hd (trim p) = last ?e"
    using e by (simp add: trim_def hd_rev)
  moreover have "last ?e = last (rev ?d)"
    using e by (metis append_Nil2 last_appendR takeWhile_dropWhile_id)
  moreover have "last (rev ?d) = hd ?d"
    using d by (simp add: last_rev)
  moreover have "\<not> is_space (hd ?d)"
    using d hd_dropWhile by blast
  ultimately show ?thesis
    by simp
qed

lemma sublist_concat: "p \<in> set ps \<Longrightarrow> sublist p (concat ps)"
  by (metis concat.simps(2) concat_append split_list sublist_appendI)

lemma weave_sublist: "p \<in> set ps \<Longrightarrow> sublist p (weave ps ts)"
proof (induction ps ts rule: weave.induct)
  case (1 q qs t ts)
  show ?case
  proof (cases "p = q")
    case True
    then show ?thesis by simp
  next
    case False
    with 1 have "sublist p (weave qs ts)"
      by simp
    then have "sublist p ((q @ t) @ weave qs ts)"
      by (meson sublist_append)
    then show ?thesis by simp
  qed
next
  case (2 q qs)
  then have "sublist p (concat (q # qs))"
    by (rule sublist_concat)
  then show ?case by simp
next
  case (3 ts)
  then show ?case by simp
qed

lemma subseq_trim: "subseq (trim p) p"
  using trim_sublist by blast

lemma subseq_concat_trim: "subseq (concat (map trim xs)) (concat xs)"
  by (induction xs) (simp_all add: list_emb_append_mono subseq_trim)

lemma subseq_concat_trim_weave: "subseq (concat (map trim ps)) (weave ps ts)"
proof (induction ps ts rule: weave.induct)
  case (1 q qs t ts)
  have "subseq (trim q) q"
    by (rule subseq_trim)
  moreover from 1 have "subseq (concat (map trim qs)) (t @ weave qs ts)"
    by (simp add: subseq_drop_many)
  ultimately show ?case
    by (simp add: list_emb_append_mono)
next
  case (2 q qs)
  have "subseq (concat (map trim (q # qs))) (concat (q # qs))"
    by (rule subseq_concat_trim)
  then show ?case by simp
next
  case (3 ts)
  show ?case by simp
qed

lemma concat_filter_nonempty: "concat (filter (\<lambda>f. f \<noteq> []) xs) = concat xs"
  by (induction xs) auto

text \<open>
  Claim C6. The pieces of \<open>js_split\<close> and the separators between them make up the text;
  every separator is a semicolon with a line break behind it, and no piece holds one.
  The fragments are the trimmed pieces that are not empty, in the order of the pieces;
  trimming takes white space off both ends of a piece and nothing else. So every fragment
  is non-empty, starts and ends with a character that is not white space, and is a
  substring of the text; and the fragments, one after the other, are found in the text in
  this order.
\<close>

theorem splitSqlStatements_fragments:
  "length (js_split s) = length (js_separators s) + 1
   \<and> weave (js_split s) (js_separators s) = s
   \<and> (\<forall>sep \<in> set (js_separators s).
         sep = [CHR '';'', CHR 0x0A] \<or> sep = [CHR '';'', CHR 0x0D, CHR 0x0A])
   \<and> (\<forall>p \<in> set (js_split s).
         \<not> sublist [CHR '';'', CHR 0x0A] p \<and> \<not> sublist [CHR '';'', CHR 0x0D, CHR 0x0A] p)
   \<and> splitSqlStatements s = filter (\<lambda>f. f \<noteq> []) (map trim (js_split s))
   \<and> (\<forall>p. \<exists>l r. p = l @ trim p @ r \<and> list_all is_space l \<and> list_all is_space r)
   \<and> (\<forall>f \<in> set (splitSqlStatements s).
         f \<noteq> [] \<and> \<not> is_space (hd f) \<and> \<not> is_space (last f) \<and> sublist f s)
   \<and> subseq (concat (splitSqlStatements s)) s"
proof -
  have dec: "\<forall>p. \<exists>l r. p = l @ trim p @ r \<and> list_all is_space l \<and> list_all is_space r"
  proof
    fix p
    have "list_all is_space (takeWhile is_space p)"
      by (simp add: list_all_iff) (meson set_takeWhileD)
    moreover have "list_all is_space (rev (takeWhile is_space (rev (dropWhile is_space p))))"
      by (simp add: list_all_iff) (meson set_takeWhileD)
    ultimately show "\<exists>l r. p = l @ trim p @ r \<and> list_all is_space l \<and> list_all is_space r"
      using trim_decomposition [of p] by blast
  qed
  have frag: "\<forall>f \<in> set (splitSqlStatements s).
         f \<noteq> [] \<and> \<not> is_space (hd f) \<and> \<not> is_space (last f) \<and> sublist f s"
  proof
    fix f
    assume "f \<in> set (splitSqlStatements s)"
    then obtain p where p: "p \<in> set (js_split s)" "f = trim p" "f \<noteq> []"
      by (auto simp: splitSqlStatements_def)
    have "sublist p (weave (js_split s) (js_separators s))"
      using p(1) by (rule weave_sublist)
    then have "sublist p s"
      by (simp add: weave_js_split)
    with trim_sublist [of p] have "sublist (trim p) s"
      by (meson sublist_trans)
    with p trim_ends [of p] show "f \<noteq> [] \<and> \<not> is_space (hd f) \<and> \<not> is_space (last f) \<and> sublist f s"
      by simp
  qed
  have "subseq (concat (map trim (js_split s))) (weave (js_split s) (js_separators s))"
    by (rule subseq_concat_trim_weave)
  then have ord: "subseq (concat (splitSqlStatements s)) s"
    by (simp add: weave_js_split splitSqlStatements_def concat_filter_nonempty)
  from dec frag ord show ?thesis
    using js_separators_shape js_split_maximal
    by (simp add: length_js_split weave_js_split splitSqlStatements_def)
qed

text \<open>The theorem on a script of two statements.\<close>

theorem splitSqlStatements_fragments_witness:
  "js_separators ''CREATE TABLE a(id INT);\<newline>CREATE TABLE b(id INT);'' = [[CHR '';'', CHR 0x0A]]
   \<and> splitSqlStatements ''CREATE TABLE a(id INT);\<newline>CREATE TABLE b(id INT);'' =
       [''CREATE TABLE a(id INT)'', ''CREATE TABLE b(id INT);'']"
proof -
  have sp: "js_split ''CREATE TABLE a(id INT);\<newline>CREATE TABLE b(id INT);'' =
              [''CREATE TABLE a(id INT)'', ''CREATE TABLE b(id INT);'']"
    by simp
  have sep: "js_separators ''CREATE TABLE a(id INT);\<newline>CREATE TABLE b(id INT);'' =
               [[CHR '';'', CHR 0x0A]]"
    by simp
  from splitSqlStatements_fragments [of "''CREATE TABLE a(id INT);\<newline>CREATE TABLE b(id INT);''"]
  have "splitSqlStatements ''CREATE TABLE a(id INT);\<newline>CREATE TABLE b(id INT);'' =
          filter (\<lambda>f. f \<noteq> [])
            (map trim (js_split ''CREATE TABLE a(id INT);\<newline>CREATE TABLE b(id INT);''))"
    by blast
  then show ?thesis
    unfolding sp using sep by (simp add: trim_def is_space_def)
qed

end
